theory Spec2Isabelle
  imports Main "HOL-Library.Sublist"
begin

section \<open>JavaScript values\<close>

text \<open>
  The values the engine handles are plain JavaScript values: what \<^verbatim>\<open>JSON.parse\<close> returns,
  what the templating helper renders, what a callback receives as its error argument.
  Numbers are the integers (correlation ids and counters are); other numbers are outside
  the model.
\<close>

datatype jsval =
    JUndefined
  | JNull
  | JBool bool
  | JNum int
  | JStr string
  | JArr "jsval list"
  | JObj "(string \<times> jsval) list"

text \<open>What \<^verbatim>\<open>if (v)\<close>, \<^verbatim>\<open>a || b\<close> and \<^verbatim>\<open>a && b\<close> test.\<close>

fun truthy :: "jsval \<Rightarrow> bool" where
  "truthy JUndefined = False"
| "truthy JNull = False"
| "truthy (JBool b) = b"
| "truthy (JNum n) = (n \<noteq> 0)"
| "truthy (JStr s) = (s \<noteq> [])"
| "truthy (JArr xs) = True"
| "truthy (JObj kvs) = True"

definition js_or :: "jsval \<Rightarrow> jsval \<Rightarrow> jsval" where
  "js_or a b = (if truthy a then a else b)"

definition js_and :: "jsval \<Rightarrow> jsval \<Rightarrow> jsval" where
  "js_and a b = (if truthy a then b else a)"

text \<open>Exceptions that the code can throw, as values.\<close>

datatype js_error =
    ReferenceError string
  | TypeError string
  | SyntaxError string
  | UnhandledError jsval

text \<open>\<^verbatim>\<open>new Error(message)\<close>, as the object a callback receives.\<close>

definition new_Error :: "string \<Rightarrow> jsval" where
  "new_Error m = JObj [(''message'', JStr m)]"

text \<open>String conversion, as a template literal and a property key apply it.\<close>

definition digit :: "nat \<Rightarrow> char" where
  "digit n = ''0123456789'' ! n"

fun show_nat :: "nat \<Rightarrow> string" where
  "show_nat n = (if n < 10 then [digit n] else show_nat (n div 10) @ [digit (n mod 10)])"

declare show_nat.simps [simp del]

definition show_int :: "int \<Rightarrow> string" where
  "show_int i = (if i < 0 then CHR ''-'' # show_nat (nat (- i)) else show_nat (nat i))"

fun join_comma :: "string list \<Rightarrow> string" where
  "join_comma [] = []"
| "join_comma [s] = s"
| "join_comma (s # t # ss) = s @ '','' @ join_comma (t # ss)"

fun to_str :: "jsval \<Rightarrow> string" where
  "to_str JUndefined = ''undefined''"
| "to_str JNull = ''null''"
| "to_str (JBool b) = (if b then ''true'' else ''false'')"
| "to_str (JNum n) = show_int n"
| "to_str (JStr s) = s"
| "to_str (JArr xs) =
     join_comma (map (\<lambda>v. if v = JUndefined \<or> v = JNull then [] else to_str v) xs)"
| "to_str (JObj kvs) = ''[object Object]''"

text \<open>
  \<^verbatim>\<open>v.k\<close> for the property names the engine reads (\<^verbatim>\<open>id\<close>, \<^verbatim>\<open>p\<close>, \<^verbatim>\<open>message\<close>,
  \<^verbatim>\<open>code\<close>): a TypeError on \<^verbatim>\<open>undefined\<close> and \<^verbatim>\<open>null\<close>, the own property of an
  object, \<^verbatim>\<open>undefined\<close> on every other value.
\<close>

fun get_prop :: "jsval \<Rightarrow> string \<Rightarrow> js_error + jsval" where
  "get_prop JUndefined k = Inl (TypeError k)"
| "get_prop JNull k = Inl (TypeError k)"
| "get_prop (JObj kvs) k = Inr (case map_of kvs k of None \<Rightarrow> JUndefined | Some v \<Rightarrow> v)"
| "get_prop v k = Inr JUndefined"

text \<open>\<^verbatim>\<open>v[i]\<close> for a numeric index.\<close>

fun get_index :: "jsval \<Rightarrow> nat \<Rightarrow> js_error + jsval" where
  "get_index JUndefined i = Inl (TypeError (show_nat i))"
| "get_index JNull i = Inl (TypeError (show_nat i))"
| "get_index (JArr xs) i = Inr (if i < length xs then xs ! i else JUndefined)"
| "get_index (JStr s) i = Inr (if i < length s then JStr [s ! i] else JUndefined)"
| "get_index (JObj kvs) i =
     Inr (case map_of kvs (show_nat i) of None \<Rightarrow> JUndefined | Some v \<Rightarrow> v)"
| "get_index v i = Inr JUndefined"

text \<open>\<^verbatim>\<open>s.indexOf(c)\<close>: \<open>None\<close> stands for \<open>-1\<close>.\<close>

definition indexOf :: "string \<Rightarrow> char \<Rightarrow> nat option" where
  "indexOf s c = (if c \<in> set s then Some (length (takeWhile (\<lambda>x. x \<noteq> c) s)) else None)"

section \<open>The VU context and the effects of a run\<close>

text \<open>
  The context object of one virtual user, with the properties the two engines read and
  write: \<^verbatim>\<open>vars\<close>, the handles \<^verbatim>\<open>ws\<close>, \<^verbatim>\<open>client\<close> and \<^verbatim>\<open>mqtt\<close> (numbered), and
  \<^verbatim>\<open>_successCount\<close>.
\<close>

record vu_context =
  vars :: "(string \<times> jsval) list"
  ws :: "nat option"
  client :: "nat option"
  mqtt :: "nat option"
  successCount :: int

text \<open>The object \<^verbatim>\<open>{ topic, payload }\<close> a beforeRequest hook receives.\<close>

datatype request = Request (req_topic: jsval) (req_payload: jsval)

text \<open>The function stored in a pending entry: the \<^verbatim>\<open>ackCallback\<close> closure of one request.\<close>

datatype closure = AckCallback string

text \<open>
  What a run does to the outside, in order: events on the event sink, console output,
  calls into the transport and the processor functions, timers armed, and the
  continuations invoked.
\<close>

datatype effect =
    Emit string "jsval list"
  | ConsoleError js_error
  | InvokeCallback closure jsval
  | SetTimeout string jsval
  | WsSend nat jsval
  | MarkEndTime
  | StepCallback string jsval
  | ClientEnd nat
  | HookCall jsval jsval request vu_context
  | HookReturn jsval
  | FuncCall jsval vu_context
  | Think jsval
  | MqttPublish nat jsval jsval jsval
  | MqttEnd nat
  | ZeroCallback jsval "vu_context option"
  | VuInitCallback jsval "vu_context option"
  | FinalCallback jsval "vu_context option"
  | Uncaught js_error

section \<open>The correlation of requests and responses (the RPC engine)\<close>

record pending =
  callback :: closure
  executed :: bool
  rpc :: jsval

text \<open>
  The engine object: \<^verbatim>\<open>responseHandlers\<close> is the pending map, \<^verbatim>\<open>timeout\<close> the property
  the timer is armed with (the constructor does not assign it: it is whatever the
  object carries).
\<close>

record engine =
  responseHandlers :: "string \<rightharpoonup> pending"
  timeout :: jsval

record rpc_spec =
  spec_rpc :: jsval
  spec_acknowledge :: jsval

definition isAcknowledgeRequired :: "rpc_spec \<Rightarrow> bool" where
  "isAcknowledgeRequired spec = truthy (js_and (spec_rpc spec) (spec_acknowledge spec))"

text \<open>
  \<^verbatim>\<open>__handleResponse(topic, message, packet)\<close>. Its body reads the identifier \<^verbatim>\<open>msg\<close>,
  which is not the parameter (that is \<^verbatim>\<open>message\<close>): \<open>msg_binding\<close> is what \<^verbatim>\<open>msg\<close>
  resolves to in the enclosing scopes, \<open>None\<close> when nothing declares it, and then the
  read throws a ReferenceError inside the \<^verbatim>\<open>try\<close>. \<open>JSON_parse\<close> is \<^verbatim>\<open>JSON.parse\<close>, \<open>None\<close>
  when it throws. The body of the \<^verbatim>\<open>try\<close> returns the engine, the effects, and the
  exception it stopped at.

  The entry's callback runs where \<open>InvokeCallback\<close> stands; what it does is the
  closure's own business (\<open>ackCallback\<close> below), and an exception it throws lands in
  the same \<^verbatim>\<open>catch\<close>.
\<close>

definition handleResponse_try ::
  "string option \<Rightarrow> (string \<Rightarrow> jsval option) \<Rightarrow> engine \<Rightarrow>
     engine \<times> effect list \<times> js_error option" where
  "handleResponse_try msg_binding JSON_parse self =
     (case msg_binding of
        None \<Rightarrow> (self, [], Some (ReferenceError ''msg''))
      | Some msg \<Rightarrow>
          (case indexOf msg CHR ''|'' of
             None \<Rightarrow> (self, [], None)
           | Some i \<Rightarrow>
               let responderId = take i msg; content = drop (i + 1) msg in
               if responderId = ''41'' then
                 (case JSON_parse content of
                    None \<Rightarrow> (self, [], Some (SyntaxError content))
                  | Some json \<Rightarrow>
                      (case get_prop json ''id'' of
                         Inl e \<Rightarrow> (self, [], Some e)
                       | Inr json_id \<Rightarrow>
                           (case responseHandlers self (to_str json_id) of
                              None \<Rightarrow> (self, [], None)
                            | Some data \<Rightarrow>
                                let self' = self\<lparr>responseHandlers :=
                                      (responseHandlers self)
                                        (to_str json_id \<mapsto> data\<lparr>executed := True\<rparr>)\<rparr> in
                                (case get_prop json ''p'' of
                                   Inl e \<Rightarrow> (self', [], Some e)
                                 | Inr p \<Rightarrow>
                                     (case get_index p 1 of
                                        Inl e \<Rightarrow> (self', [], Some e)
                                      | Inr result \<Rightarrow>
                                          (self', [InvokeCallback (callback data) result],
                                           None))))))
               else (self, [], None)))"

definition handleResponse_on ::
  "string option \<Rightarrow> (string \<Rightarrow> jsval option) \<Rightarrow> engine \<Rightarrow> string \<Rightarrow> string \<Rightarrow>
     engine \<times> effect list" where
  "handleResponse_on msg_binding JSON_parse self topic message =
     (case handleResponse_try msg_binding JSON_parse self of
        (self', effs, None) \<Rightarrow> (self', effs)
      | (self', effs, Some error) \<Rightarrow> (self', effs @ [ConsoleError error]))"

text \<open>The handler as the module has it: no scope declares \<^verbatim>\<open>msg\<close>.\<close>

definition handleResponse ::
  "(string \<Rightarrow> jsval option) \<Rightarrow> engine \<Rightarrow> string \<Rightarrow> string \<Rightarrow> engine \<times> effect list" where
  "handleResponse = handleResponse_on None"

text \<open>
  \<^verbatim>\<open>endCallback\<close> of a request step, for the request \<open>uniqueId\<close> with the rendered
  \<open>payload\<close>: with an acknowledge it stores the pending entry, arms the timer with
  \<^verbatim>\<open>self.timeout\<close> and sends; without one it sends and continues. \<^verbatim>\<open>ws\<close> is
  \<^verbatim>\<open>context.ws || null\<close>, and \<^verbatim>\<open>ws.send\<close> on \<^verbatim>\<open>null\<close> throws.
\<close>

definition endCallback ::
  "engine \<Rightarrow> rpc_spec \<Rightarrow> string \<Rightarrow> jsval \<Rightarrow> vu_context \<Rightarrow>
     engine \<times> effect list \<times> js_error option" where
  "endCallback self requestSpec uniqueId payload context =
     (if isAcknowledgeRequired requestSpec then
        let self' = self\<lparr>responseHandlers := (responseHandlers self)
              (uniqueId \<mapsto> \<lparr>callback = AckCallback uniqueId, executed = False,
                            rpc = spec_rpc requestSpec\<rparr>)\<rparr>
        in (case ws context of
              None \<Rightarrow> (self', [SetTimeout uniqueId (timeout self)], Some (TypeError ''send''))
            | Some w \<Rightarrow> (self', [SetTimeout uniqueId (timeout self), WsSend w payload], None))
      else
        (case ws context of
           None \<Rightarrow> (self, [], Some (TypeError ''send''))
         | Some w \<Rightarrow> (self, [WsSend w payload, MarkEndTime, StepCallback uniqueId JNull], None)))"

text \<open>
  The function the timer runs for the request \<open>uniqueId\<close>. It reads \<^verbatim>\<open>data.rpc\<close> before it
  tests \<^verbatim>\<open>data\<close>, so a missing entry is a TypeError.
\<close>

definition timeout_handler ::
  "engine \<Rightarrow> string \<Rightarrow> engine \<times> effect list \<times> js_error option" where
  "timeout_handler self uniqueId =
     (case responseHandlers self uniqueId of
        None \<Rightarrow> (self, [], Some (TypeError ''rpc''))
      | Some data \<Rightarrow>
          let err = ''response timeout for '' @ to_str (rpc data);
              self' = self\<lparr>responseHandlers := (responseHandlers self)(uniqueId := None)\<rparr>
          in if \<not> executed data
             then (self', [Emit ''error'' [JStr err], StepCallback uniqueId (new_Error err)],
                   None)
             else (self', [], None))"

text \<open>
  What reaches the engine after a request was registered: inbound messages and the
  firing of timers. A run stops at an exception that nothing catches. What \<^verbatim>\<open>msg\<close>
  resolves to does not depend on the message that arrives: it is one binding for the run.
\<close>

datatype arrival = Message string string | TimerFires string

fun arrive ::
  "string option \<Rightarrow> (string \<Rightarrow> jsval option) \<Rightarrow> engine \<Rightarrow> arrival \<Rightarrow>
     engine \<times> effect list \<times> js_error option" where
  "arrive b P self (Message t m) =
     (case handleResponse_on b P self t m of (self', effs) \<Rightarrow> (self', effs, None))"
| "arrive b P self (TimerFires uniqueId) = timeout_handler self uniqueId"

fun arrivals ::
  "string option \<Rightarrow> (string \<Rightarrow> jsval option) \<Rightarrow> engine \<Rightarrow> arrival list \<Rightarrow>
     engine \<times> effect list \<times> js_error option" where
  "arrivals b P self [] = (self, [], None)"
| "arrivals b P self (a # as) =
     (case arrive b P self a of
        (self', effs, Some e) \<Rightarrow> (self', effs, Some e)
      | (self', effs, None) \<Rightarrow>
          (case arrivals b P self' as of
             (self'', effs', thrown) \<Rightarrow> (self'', effs @ effs', thrown)))"

section \<open>Validating an acknowledge\<close>

text \<open>
  The acknowledge spec after rendering, \<^verbatim>\<open>{ data, capture, match }\<close>, and what the helper
  \<^verbatim>\<open>engineUtil.captureOrMatch\<close> hands its callback: an error, or the captures and the
  outcome of every match expression.
\<close>

record ack_response =
  ack_data :: jsval
  ack_capture :: jsval
  ack_match :: jsval

record match_outcome =
  success :: bool
  expected :: jsval
  got :: jsval
  expression :: jsval

record capture_result =
  captures :: "(string \<times> jsval) list"
  matches :: "(string \<times> match_outcome) list"

text \<open>\<^verbatim>\<open>context.vars[k] = v\<close>\<close>

definition set_var :: "string \<Rightarrow> jsval \<Rightarrow> vu_context \<Rightarrow> vu_context" where
  "set_var k v context =
     context\<lparr>vars := (k, v) # filter (\<lambda>kv. fst kv \<noteq> k) (vars context)\<rparr>"

text \<open>
  \<^verbatim>\<open>processResponse(ee, data, response, context, callback)\<close>, in two parts: the test of
  the supplied data, then capture and match. The identifier \<^verbatim>\<open>deepEqual\<close> is read from
  the enclosing scopes like \<^verbatim>\<open>msg\<close> above: \<open>deepEqual_binding\<close> is what it resolves to,
  \<open>None\<close> when nothing declares it. \<open>JSON_stringify\<close> is \<^verbatim>\<open>JSON.stringify\<close> and
  \<open>captureOrMatch\<close> the helper, with the error and the result it passes on. The result
  is the effects and then either the exception thrown or the arguments of the one call
  of \<^verbatim>\<open>callback\<close>.
\<close>

definition processResponse_capture ::
  "(jsval \<Rightarrow> jsval) \<Rightarrow> (ack_response \<Rightarrow> jsval \<Rightarrow> vu_context \<Rightarrow> jsval \<times> capture_result) \<Rightarrow>
     jsval \<Rightarrow> ack_response \<Rightarrow> vu_context \<Rightarrow> effect list \<times> (js_error + jsval \<times> vu_context)" where
  "processResponse_capture JSON_stringify captureOrMatch data response context =
     (if \<not> truthy (ack_capture response) \<and> \<not> truthy (ack_match response)
      then ([], Inr (JNull, context))
      else
        let body = JSON_stringify data in
        (case captureOrMatch response body context of
           (err, result) \<Rightarrow>
             if truthy err then ([Emit ''error'' [err]], Inr (err, context))
             else
               let failedMatches = filter (\<lambda>kv. \<not> success (snd kv)) (matches result) in
               if length failedMatches > 0
               then ([Emit ''error'' [JStr ''Failed match'']],
                     Inr (new_Error ''Failed match'', context))
               else
                 (map (\<lambda>kv. Emit ''match''
                         [JBool (success (snd kv)),
                          JObj [(''expected'', expected (snd kv)), (''got'', got (snd kv)),
                                (''expression'', expression (snd kv))]])
                    (matches result),
                  Inr (JNull,
                       (set_var ''$'' body
                          (fold (\<lambda>kv c. set_var (fst kv) (snd kv) c) (captures result) context))
                         \<lparr>successCount :=
                            successCount context + 1\<rparr>))))"

definition processResponse_on ::
  "(jsval \<Rightarrow> jsval \<Rightarrow> bool) option \<Rightarrow> (jsval \<Rightarrow> jsval) \<Rightarrow>
     (ack_response \<Rightarrow> jsval \<Rightarrow> vu_context \<Rightarrow> jsval \<times> capture_result) \<Rightarrow>
     jsval \<Rightarrow> ack_response \<Rightarrow> vu_context \<Rightarrow> effect list \<times> (js_error + jsval \<times> vu_context)" where
  "processResponse_on deepEqual_binding JSON_stringify captureOrMatch data response context =
     (if truthy (ack_data response) then
        (case deepEqual_binding of
           None \<Rightarrow> ([], Inl (ReferenceError ''deepEqual''))
         | Some deepEqual \<Rightarrow>
             if \<not> deepEqual data (ack_data response)
             then ([Emit ''error'' [JStr ''data is not valid'']],
                   Inr (JStr ''data is not valid'', context))
             else processResponse_capture JSON_stringify captureOrMatch data response context)
      else processResponse_capture JSON_stringify captureOrMatch data response context)"

text \<open>The function as the module has it: no scope declares \<^verbatim>\<open>deepEqual\<close>.\<close>

definition processResponse ::
  "(jsval \<Rightarrow> jsval) \<Rightarrow> (ack_response \<Rightarrow> jsval \<Rightarrow> vu_context \<Rightarrow> jsval \<times> capture_result) \<Rightarrow>
     jsval \<Rightarrow> ack_response \<Rightarrow> vu_context \<Rightarrow> effect list \<times> (js_error + jsval \<times> vu_context)" where
  "processResponse = processResponse_on None"

text \<open>
  \<^verbatim>\<open>ackCallback\<close> of the request \<open>uniqueId\<close>, from the rendered acknowledge spec on
  (\<open>response\<close>, with the default \<^verbatim>\<open>json\<close> paths filled in): \<^verbatim>\<open>arguments\<close> is what the
  handler passed, as the array-like object it is.
\<close>

definition ackCallback ::
  "(jsval \<Rightarrow> jsval) \<Rightarrow> (ack_response \<Rightarrow> jsval \<Rightarrow> vu_context \<Rightarrow> jsval \<times> capture_result) \<Rightarrow>
     string \<Rightarrow> ack_response \<Rightarrow> vu_context \<Rightarrow> jsval \<Rightarrow> effect list \<times> js_error option" where
  "ackCallback JSON_stringify captureOrMatch uniqueId response context result =
     (case processResponse JSON_stringify captureOrMatch (JObj [(''0'', result)]) response
             context of
        (effs, Inl e) \<Rightarrow> (effs, Some e)
      | (effs, Inr (err, context')) \<Rightarrow>
          (effs @ (if \<not> truthy err then [MarkEndTime] else []) @ [StepCallback uniqueId err],
           None))"

section \<open>The end of a scenario and the transport's events (the RPC engine)\<close>

text \<open>\<^verbatim>\<open>scenarioWaterfallCb(err, context)\<close>, the final callback of the waterfall.\<close>

definition scenarioWaterfallCb :: "jsval \<Rightarrow> vu_context option \<Rightarrow> effect list" where
  "scenarioWaterfallCb err context =
     (case context of
        None \<Rightarrow> []
      | Some c \<Rightarrow> (case client c of None \<Rightarrow> [] | Some h \<Rightarrow> [ClientEnd h]))
     @ [FinalCallback err context]"

text \<open>
  The events of the transport client: \<^verbatim>\<open>connect\<close> (with the handle), \<^verbatim>\<open>error\<close>,
  \<^verbatim>\<open>reconnect\<close>.
\<close>

datatype transport_event = Connect nat | TransportError jsval | Reconnect

text \<open>\<^verbatim>\<open>error.message || error.code\<close>\<close>

definition message_or_code :: "jsval \<Rightarrow> js_error + jsval" where
  "message_or_code error =
     (case get_prop error ''message'' of
        Inl e \<Rightarrow> Inl e
      | Inr m \<Rightarrow> if truthy m then Inr m else get_prop error ''code'')"

text \<open>
  The listeners that \<^verbatim>\<open>createMqttClient\<close> registers: \<^verbatim>\<open>on('connect')\<close>, which stays,
  and \<^verbatim>\<open>once('error')\<close>, which \<open>armed\<close> says is still there. \<^verbatim>\<open>callback\<close> is the
  continuation of the step \<^verbatim>\<open>zero\<close>; on an error it gets the empty object as context.
  An \<^verbatim>\<open>error\<close> event that finds no listener is thrown by the emitter.
\<close>

definition empty_context :: vu_context where
  "empty_context = \<lparr>vars = [], ws = None, client = None, mqtt = None, successCount = 0\<rparr>"

fun createMqttClient_event ::
  "vu_context \<Rightarrow> bool \<Rightarrow> transport_event \<Rightarrow> bool \<times> vu_context \<times> effect list \<times> js_error option" where
  "createMqttClient_event initialContext armed (Connect h) =
     (armed, initialContext\<lparr>client := Some h\<rparr>,
      [ZeroCallback JNull (Some (initialContext\<lparr>client := Some h\<rparr>))], None)"
| "createMqttClient_event initialContext armed (TransportError err) =
     (if armed then
        (case message_or_code err of
           Inl e \<Rightarrow> (False, initialContext, [], Some e)
         | Inr m \<Rightarrow>
             (False, initialContext,
              [Emit ''error'' [m], ZeroCallback err (Some empty_context)], None))
      else (armed, initialContext, [], Some (UnhandledError err)))"
| "createMqttClient_event initialContext armed Reconnect = (armed, initialContext, [], None)"

section \<open>The MQTT engine: environment, steps and pipeline\<close>

text \<open>
  A function of the processor module, by what it does under each of the three calling
  conventions the engine uses. Each is taken to call its continuation once:
  \<^item> as a Function step, \<^verbatim>\<open>func(context, ee, next)\<close>: the context as it leaves it;
  \<^item> as a beforeRequest hook, \<^verbatim>\<open>processFunc({ topic, payload }, context, ee, next)\<close>: the
    error it passes to \<^verbatim>\<open>next\<close>, the context as it leaves it, and the topic and the
    payload it was handed as it leaves them (it holds references to the values the
    step rendered, and can change an object or an array in place);
  \<^item> as a whileTrue predicate, \<^verbatim>\<open>(context, done)\<close>: what it passes to \<^verbatim>\<open>done\<close>.
\<close>

record jsfun =
  as_step :: "vu_context \<Rightarrow> vu_context"
  as_hook :: "request \<Rightarrow> vu_context \<Rightarrow> jsval \<times> vu_context \<times> request"
  as_whileTrue :: "vu_context \<Rightarrow> bool"

text \<open>
  What the engine is given: \<^verbatim>\<open>helpers.template\<close>, \<^verbatim>\<open>script.config.processor\<close> (\<open>None\<close>
  when the script has none), \<^verbatim>\<open>JSON.stringify\<close>, and the transport's answers: the
  error it hands the callback of \<^verbatim>\<open>publish\<close> and of \<^verbatim>\<open>end\<close> (\<^verbatim>\<open>null\<close> or \<^verbatim>\<open>undefined\<close>
  for none).
\<close>

record env =
  template :: "jsval \<Rightarrow> vu_context \<Rightarrow> jsval"
  processor :: "(string \<rightharpoonup> jsfun) option"
  stringify :: "jsval \<Rightarrow> jsval"
  publish_error :: "jsval \<Rightarrow> jsval \<Rightarrow> jsval \<Rightarrow> jsval"
  end_error :: jsval

text \<open>
  How a step ends: it calls its continuation with no error and the context, or with
  an error (and maybe a context), or throws, or has not come back when the fuel of a
  loop ran out.
\<close>

datatype outcome =
    Success vu_context
  | Failure jsval "vu_context option"
  | Thrown js_error
  | OutOfFuel

type_synonym stepfn = "vu_context \<Rightarrow> effect list \<times> outcome"

text \<open>
  \<^verbatim>\<open>A.waterfall\<close> over steps that each take the context: the next step starts when the
  one before has called back with no error; an error goes to the final callback.
\<close>

fun waterfall :: "stepfn list \<Rightarrow> stepfn" where
  "waterfall [] context = ([], Success context)"
| "waterfall (s # ss) context =
     (case s context of
        (effs, Success context') \<Rightarrow>
          (case waterfall ss context' of (effs', out) \<Rightarrow> (effs @ effs', out))
      | (effs, out) \<Rightarrow> (effs, out))"

text \<open>The step descriptors, with the properties \<^verbatim>\<open>step\<close> looks at.\<close>

datatype publish_spec =
  PublishSpec (pub_topic: jsval) (pub_payload: jsval) (pub_options: jsval)
    (pub_beforeRequest: jsval)

datatype request_spec =
  RS (rs_loop: "request_spec list option") (rs_count: "int option") (rs_loopValue: jsval)
    (rs_over: jsval) (rs_whileTrue: jsval) (rs_log: jsval) (rs_think: jsval)
    (rs_function: jsval) (rs_publish: "publish_spec option")

text \<open>\<^verbatim>\<open>rs.count || -1\<close>\<close>

definition count_or_minus_one :: "int option \<Rightarrow> int" where
  "count_or_minus_one c = (case c of None \<Rightarrow> - 1 | Some n \<Rightarrow> if n \<noteq> 0 then n else - 1)"

text \<open>An argument of \<^verbatim>\<open>_.concat(a || [], b || [])\<close>: an array gives its elements, any
  other value itself.\<close>

definition concat_arg :: "jsval \<Rightarrow> jsval list" where
  "concat_arg v = (if truthy v then (case v of JArr xs \<Rightarrow> xs | _ \<Rightarrow> [v]) else [])"

text \<open>
  What a hook can do to the rendered topic and payload. The step keeps them in its own
  variables \<^verbatim>\<open>topic\<close> and \<^verbatim>\<open>payload\<close>, which a hook cannot assign to; what a hook can
  do is change the object or the array behind one of them in place. So of what a hook
  leaves, the step sees a new content where the value was an object and still is, or
  was an array and still is, and the old value everywhere else.
\<close>

fun same_kind :: "jsval \<Rightarrow> jsval \<Rightarrow> bool" where
  "same_kind (JObj a) (JObj b) = True"
| "same_kind (JArr a) (JArr b) = True"
| "same_kind v w = False"

definition changed_in_place :: "jsval \<Rightarrow> jsval \<Rightarrow> jsval" where
  "changed_in_place old new = (if same_kind old new then new else old)"

definition after_hook :: "request \<Rightarrow> request \<Rightarrow> request" where
  "after_hook req left =
     Request (changed_in_place (req_topic req) (req_topic left))
       (changed_in_place (req_payload req) (req_payload left))"

text \<open>
  \<^verbatim>\<open>A.eachSeries(functionNames, iteratee, done)\<close> of a publish step, with \<^verbatim>\<open>iteratee\<close>
  inlined: one hook after the other, the first error ends the series. Every hook is
  handed \<^verbatim>\<open>{ topic, payload }\<close> with the topic and the payload as the hooks before it
  left them, and the context. \<^verbatim>\<open>processFunc\<close> is declared \<^verbatim>\<open>const\<close>, so the assignment
  of the stand-in for a missing function throws. The result is the trace, the argument
  of \<^verbatim>\<open>done\<close>, and the topic and payload as they stand at the end.
\<close>

fun eachSeries ::
  "env \<Rightarrow> jsval list \<Rightarrow> request \<Rightarrow> vu_context \<Rightarrow> effect list \<times> outcome \<times> request" where
  "eachSeries env [] req context = ([], Success context, req)"
| "eachSeries env (functionName # rest) req context =
     (let fn = template env functionName context in
      case processor env of
        None \<Rightarrow> ([], Thrown (TypeError (to_str fn)), req)
      | Some registry \<Rightarrow>
          (case registry (to_str fn) of
             None \<Rightarrow> ([], Thrown (TypeError ''Assignment to constant variable.''), req)
           | Some processFunc \<Rightarrow>
               (case as_hook processFunc req context of
                  (err, context', left) \<Rightarrow>
                    if truthy err
                    then ([HookCall functionName fn req context, HookReturn err],
                          Failure err (Some context'), after_hook req left)
                    else
                      (case eachSeries env rest (after_hook req left) context' of
                         (effs, out, req') \<Rightarrow>
                           (HookCall functionName fn req context # HookReturn err # effs,
                            out, req')))))"

text \<open>The inner function \<^verbatim>\<open>publish(context, callback)\<close> of a publish step.\<close>

definition publish :: "env \<Rightarrow> publish_spec \<Rightarrow> jsval \<Rightarrow> jsval \<Rightarrow> stepfn" where
  "publish env p topic payload context =
     (case mqtt context of
        None \<Rightarrow> ([], Thrown (TypeError ''publish''))
      | Some h \<Rightarrow>
          let sent = (case payload of JStr s \<Rightarrow> payload | _ \<Rightarrow> stringify env payload);
              error = publish_error env topic sent (pub_options p)
          in if truthy error then
               (case message_or_code error of
                  Inl e \<Rightarrow> ([MqttPublish h topic sent (pub_options p)], Thrown e)
                | Inr m \<Rightarrow>
                    ([MqttPublish h topic sent (pub_options p), Emit ''error'' [m]],
                     Failure error None))
             else
               ([MqttPublish h topic sent (pub_options p),
                 Emit ''counter'' [JStr ''mqtt.publish_count'', JNum 1],
                 Emit ''rate'' [JStr ''mqtt.publish_rate'']],
                Success context))"

text \<open>The step function \<^verbatim>\<open>f\<close> of a publish step; \<open>opts_beforeRequest\<close> is
  \<^verbatim>\<open>opts.beforeRequest\<close>, the scenario's hook list. The publish works on \<^verbatim>\<open>topic\<close> and
  \<^verbatim>\<open>payload\<close> as they stand when the hooks are through.\<close>

definition publish_step :: "env \<Rightarrow> jsval \<Rightarrow> publish_spec \<Rightarrow> stepfn" where
  "publish_step env opts_beforeRequest p context =
     (let topic = template env (pub_topic p) context;
          payload = template env (pub_payload p) context;
          functionNames = concat_arg opts_beforeRequest @ concat_arg (pub_beforeRequest p)
      in case eachSeries env functionNames (Request topic payload) context of
           (effs, Success context', req') \<Rightarrow>
             (case publish env p (req_topic req') (req_payload req') context' of
                (effs', out) \<Rightarrow> (effs @ effs', out))
         | (effs, out, req') \<Rightarrow> (effs, out))"

text \<open>The step function of a Function step.\<close>

definition function_step :: "env \<Rightarrow> jsval \<Rightarrow> stepfn" where
  "function_step env name context =
     (case processor env of
        None \<Rightarrow> ([], Thrown (TypeError (to_str name)))
      | Some registry \<Rightarrow>
          (case registry (to_str name) of
             None \<Rightarrow> ([], Success context)
           | Some func \<Rightarrow> ([FuncCall name context], Success (as_step func context))))"

text \<open>
  The step function \<^verbatim>\<open>log\<close>: nothing in the module declares \<^verbatim>\<open>chalk\<close>, so the call
  \<^verbatim>\<open>chalk.blue(...)\<close> throws before anything is written.
\<close>

definition log_step :: "env \<Rightarrow> jsval \<Rightarrow> stepfn" where
  "log_step env t context = ([], Thrown (ReferenceError ''chalk''))"

definition doNothing :: stepfn where
  "doNothing context = ([], Success context)"

text \<open>
  Modelled from the spec: \<^verbatim>\<open>helpers.createThink\<close> is Artillery's, not this
  repository's. Section 4.1: a Think step suspends the pipeline for its duration and
  resumes at expiry.
\<close>

definition think_step :: "jsval \<Rightarrow> stepfn" where
  "think_step duration context = ([Think duration], Success context)"

text \<open>
  Modelled from the spec: \<^verbatim>\<open>helpers.createLoopWithCount(count, steps, opts)\<close> is
  Artillery's, not this repository's. Section 4.1, Loop, with count C, list O and
  predicate W:
  \<^item> O non-empty: its elements in order, the loop variable bound to the element before
    each run of the inner steps; after an iteration, a W that is present and false stops
    the loop (\<open>loop_over\<close>);
  \<^item> else C \<ge> 0: the inner steps exactly C times, the loop variable bound to the 0-based
    index (\<open>loop_times\<close>);
  \<^item> else: indefinitely, W checked again after every iteration (\<open>loop_indefinitely\<close>,
    which gives \<open>OutOfFuel\<close> when it has not stopped after \<open>fuel\<close> iterations).
  A failing inner step ends the loop with its error (section 4.1, error propagation).
\<close>

record loop_opts =
  loopValue :: jsval
  overValues :: jsval
  whileTrue :: "jsfun option"

text \<open>Modelled from the spec: whether the loop goes on after an iteration (a W that is
  present and false stops it).\<close>

definition goes_on :: "jsfun option \<Rightarrow> vu_context \<Rightarrow> bool" where
  "goes_on W context = (case W of None \<Rightarrow> True | Some w \<Rightarrow> as_whileTrue w context)"

text \<open>Modelled from the spec: the loop over the elements of a non-empty O.\<close>

fun loop_over :: "stepfn list \<Rightarrow> jsfun option \<Rightarrow> string \<Rightarrow> jsval list \<Rightarrow> stepfn" where
  "loop_over steps W name [] context = ([], Success context)"
| "loop_over steps W name (v # vs) context =
     (case waterfall steps (set_var name v context) of
        (effs, Success context') \<Rightarrow>
          if goes_on W context'
          then (case loop_over steps W name vs context' of (effs', out) \<Rightarrow> (effs @ effs', out))
          else (effs, Success context')
      | (effs, out) \<Rightarrow> (effs, out))"

text \<open>Modelled from the spec: the loop that runs a given number of times, from index \<open>i\<close>.\<close>

fun loop_times :: "stepfn list \<Rightarrow> string \<Rightarrow> nat \<Rightarrow> nat \<Rightarrow> stepfn" where
  "loop_times steps name 0 i context = ([], Success context)"
| "loop_times steps name (Suc n) i context =
     (case waterfall steps (set_var name (JNum (int i)) context) of
        (effs, Success context') \<Rightarrow>
          (case loop_times steps name n (Suc i) context' of
             (effs', out) \<Rightarrow> (effs @ effs', out))
      | (effs, out) \<Rightarrow> (effs, out))"

text \<open>Modelled from the spec: the loop without a count, bounded by \<open>fuel\<close>.\<close>

fun loop_indefinitely :: "nat \<Rightarrow> stepfn list \<Rightarrow> jsfun option \<Rightarrow> stepfn" where
  "loop_indefinitely 0 steps W context = ([], OutOfFuel)"
| "loop_indefinitely (Suc fuel) steps W context =
     (case waterfall steps context of
        (effs, Success context') \<Rightarrow>
          if goes_on W context'
          then (case loop_indefinitely fuel steps W context' of
                  (effs', out) \<Rightarrow> (effs @ effs', out))
          else (effs, Success context')
      | (effs, out) \<Rightarrow> (effs, out))"

text \<open>Modelled from the spec: the choice between the three modes.\<close>

definition createLoopWithCount :: "nat \<Rightarrow> int \<Rightarrow> stepfn list \<Rightarrow> loop_opts \<Rightarrow> stepfn" where
  "createLoopWithCount fuel C steps opts context =
     (case overValues opts of
        JArr (v # vs) \<Rightarrow>
          loop_over steps (whileTrue opts) (to_str (loopValue opts)) (v # vs) context
      | _ \<Rightarrow>
          if C \<ge> 0 then loop_times steps (to_str (loopValue opts)) (nat C) 0 context
          else loop_indefinitely fuel steps (whileTrue opts) context)"

text \<open>
  \<^verbatim>\<open>step(rs, ee, opts)\<close>: the step function of a descriptor, chosen by the first property
  present among \<^verbatim>\<open>loop\<close>, \<^verbatim>\<open>log\<close>, \<^verbatim>\<open>think\<close>, \<^verbatim>\<open>function\<close>, \<^verbatim>\<open>publish\<close>. \<open>fuel\<close>
  bounds the loops that have no end of their own.
\<close>

fun step :: "nat \<Rightarrow> env \<Rightarrow> jsval \<Rightarrow> request_spec \<Rightarrow> stepfn" where
  "step fuel env opts_beforeRequest (RS loop count lv over wt log think func pub) =
     (case loop of
        Some inner \<Rightarrow>
          createLoopWithCount fuel (count_or_minus_one count)
            (map (step fuel env opts_beforeRequest) inner)
            \<lparr>loopValue = js_or lv (JStr ''$loopCount''), overValues = over,
             whileTrue = (case processor env of
                            None \<Rightarrow> None
                          | Some registry \<Rightarrow> registry (to_str wt))\<rparr>
      | None \<Rightarrow>
          if truthy log then log_step env log
          else if truthy think then think_step think
          else if truthy func then function_step env func
          else (case pub of
                  Some p \<Rightarrow> publish_step env opts_beforeRequest p
                | None \<Rightarrow> doNothing))"

section \<open>The MQTT engine: one virtual user\<close>

text \<open>
  The listeners that \<^verbatim>\<open>vuInit\<close> registers on the client: \<^verbatim>\<open>once("connect")\<close> and
  \<^verbatim>\<open>once("error")\<close>, each there until its first event, and \<^verbatim>\<open>on("error")\<close> and
  \<^verbatim>\<open>on("reconnect")\<close>, which stay. Listeners run in the order they were registered.
  \<^verbatim>\<open>callback\<close> is the continuation of \<^verbatim>\<open>vuInit\<close>; \<open>clientId\<close> is
  \<^verbatim>\<open>mqttClient.options.clientId\<close>.
\<close>

record listeners =
  connect_once :: bool
  error_once :: bool

fun vuInit_event ::
  "jsval \<Rightarrow> vu_context \<Rightarrow> listeners \<Rightarrow> transport_event \<Rightarrow>
     listeners \<times> vu_context \<times> effect list \<times> js_error option" where
  "vuInit_event clientId initialContext ls (Connect h) =
     (if connect_once ls
      then (ls\<lparr>connect_once := False\<rparr>, initialContext\<lparr>mqtt := Some h\<rparr>,
            [Emit ''counter'' [JStr ''mqtt.connect'', JNum 1],
             VuInitCallback JNull (Some (initialContext\<lparr>mqtt := Some h\<rparr>))], None)
      else (ls, initialContext, [], None))"
| "vuInit_event clientId initialContext ls (TransportError error) =
     (let first = (if error_once ls then [VuInitCallback error None] else []) in
      case message_or_code error of
        Inl e \<Rightarrow> (ls\<lparr>error_once := False\<rparr>, initialContext, first, Some e)
      | Inr m \<Rightarrow> (ls\<lparr>error_once := False\<rparr>, initialContext, first @ [Emit ''error'' [m]], None))"
| "vuInit_event clientId initialContext ls Reconnect =
     (ls, initialContext,
      [Emit ''counter'' [JStr (''mqtt.reconnect.'' @ to_str clientId), JNum 1]], None)"

fun vuInit_events ::
  "jsval \<Rightarrow> vu_context \<Rightarrow> listeners \<Rightarrow> transport_event list \<Rightarrow>
     listeners \<times> vu_context \<times> effect list \<times> js_error option" where
  "vuInit_events clientId initialContext ls [] = (ls, initialContext, [], None)"
| "vuInit_events clientId initialContext ls (ev # evs) =
     (case vuInit_event clientId initialContext ls ev of
        (ls', context', effs, Some e) \<Rightarrow> (ls', context', effs, Some e)
      | (ls', context', effs, None) \<Rightarrow>
          (case vuInit_events clientId context' ls' evs of
             (ls'', context'', effs', thrown) \<Rightarrow> (ls'', context'', effs @ effs', thrown)))"

text \<open>\<^verbatim>\<open>done(error, context)\<close>, the final callback of the waterfall of a scenario.\<close>

definition waterfall_done :: "env \<Rightarrow> jsval \<Rightarrow> vu_context option \<Rightarrow> effect list" where
  "waterfall_done env error context =
     (if truthy error then [FinalCallback error context]
      else
        (case context of
           None \<Rightarrow> [FinalCallback error context]
         | Some c \<Rightarrow>
             (case mqtt c of
                None \<Rightarrow> [FinalCallback error context]
              | Some h \<Rightarrow>
                  [MqttEnd h,
                   if truthy (end_error env)
                   then Emit ''counter'' [JStr ''mqtt.error.close'', JNum 1]
                   else Emit ''counter'' [JStr ''mqtt.close'', JNum 1],
                   FinalCallback (end_error env) context])))"

text \<open>
  What the waterfall does once \<^verbatim>\<open>vuInit\<close> has called back with \<open>error\<close> and
  \<open>context\<close>: with an error, \<^verbatim>\<open>done\<close>; otherwise the tasks in order and then \<^verbatim>\<open>done\<close>
  with what they end in. An exception leaves the waterfall, and a task that is started
  without a context has none to work on.
\<close>

definition run_tasks :: "env \<Rightarrow> stepfn list \<Rightarrow> jsval \<Rightarrow> vu_context option \<Rightarrow> effect list" where
  "run_tasks env tasks error context =
     (if truthy error then waterfall_done env error context
      else
        (case context of
           None \<Rightarrow> if tasks = [] then waterfall_done env error None
                   else [Uncaught (TypeError ''context'')]
         | Some c \<Rightarrow>
             (case waterfall tasks c of
                (effs, Success c') \<Rightarrow> effs @ waterfall_done env JNull (Some c')
              | (effs, Failure e c') \<Rightarrow> effs @ waterfall_done env e c'
              | (effs, Thrown e) \<Rightarrow> effs @ [Uncaught e]
              | (effs, OutOfFuel) \<Rightarrow> effs)))"

text \<open>
  \<^verbatim>\<open>createScenario(scenarioSpec, ee)\<close> and the scenario function it returns, run up to
  the end of the pipeline that the first event of the transport starts. The hook lists
  are lists already (\<^verbatim>\<open>ensurePropertyIsAList\<close>).
\<close>

record scenario_spec =
  beforeScenario :: "jsval list"
  afterScenario :: "jsval list"
  beforeRequest :: "jsval list"
  flow :: "request_spec list"

definition function_rs :: "jsval \<Rightarrow> request_spec" where
  "function_rs hookFunctionName =
     RS None None JUndefined JUndefined JUndefined JUndefined JUndefined hookFunctionName None"

definition tasks_of :: "nat \<Rightarrow> env \<Rightarrow> scenario_spec \<Rightarrow> stepfn list" where
  "tasks_of fuel env scenarioSpec =
     map (step fuel env (JArr (beforeRequest scenarioSpec)))
       (map function_rs (beforeScenario scenarioSpec) @ flow scenarioSpec
        @ map function_rs (afterScenario scenarioSpec))"

definition createScenario ::
  "nat \<Rightarrow> env \<Rightarrow> jsval \<Rightarrow> scenario_spec \<Rightarrow> transport_event \<Rightarrow> vu_context \<Rightarrow> effect list" where
  "createScenario fuel env clientId scenarioSpec first initialContext =
     Emit ''started'' [] #
     (case vuInit_event clientId initialContext \<lparr>connect_once = True, error_once = True\<rparr>
             first of
        (ls, context, effs, thrown) \<Rightarrow>
          concat (map (\<lambda>e. case e of
                              VuInitCallback error c \<Rightarrow>
                                e # run_tasks env (tasks_of fuel env scenarioSpec) error c
                            | _ \<Rightarrow> [e]) effs)
          @ (case thrown of None \<Rightarrow> [] | Some e \<Rightarrow> [Uncaught e]))"

section \<open>Reading a run, and the inputs of the examples\<close>

text \<open>The events a run has put on the event sink, in order.\<close>

fun emitted :: "effect list \<Rightarrow> (string \<times> jsval list) list" where
  "emitted [] = []"
| "emitted (Emit n args # es) = (n, args) # emitted es"
| "emitted (e # es) = emitted es"


text \<open>
  An engine with nothing pending, one with the request \<open>1\<close> pending, a request that
  asks for an acknowledge, the response frame to it, and \<^verbatim>\<open>JSON.parse\<close> on the content
  of that frame.
\<close>

definition sample_engine :: engine where
  "sample_engine = \<lparr>responseHandlers = Map.empty, timeout = JNum 10000\<rparr>"

definition sample_pending :: engine where
  "sample_pending =
     \<lparr>responseHandlers =
        [''1'' \<mapsto> \<lparr>callback = AckCallback ''1'', executed = False, rpc = JStr ''getUser''\<rparr>],
      timeout = JNum 10000\<rparr>"

definition sample_rpc :: rpc_spec where
  "sample_rpc = \<lparr>spec_rpc = JStr ''getUser'', spec_acknowledge = JBool True\<rparr>"

definition sample_request :: jsval where
  \<open>sample_request = JStr ''41|{"id":1,"m":"getUser","p":[]}''\<close>

definition sample_frame :: string where
  \<open>sample_frame = ''41|{"id":1,"p":[null,["ok"]]}''\<close>

definition sample_parse :: "string \<Rightarrow> jsval option" where
  \<open>sample_parse s =
     (if s = ''{"id":1,"p":[null,["ok"]]}''
      then Some (JObj [(''id'', JNum 1), (''p'', JArr [JNull, JArr [JStr ''ok'']])])
      else None)\<close>

definition sample_context :: vu_context where
  "sample_context = \<lparr>vars = [], ws = Some 0, client = Some 0, mqtt = Some 0, successCount = 0\<rparr>"

text \<open>
  One run of a beforeRequest hook: the list element it was called for, the rendered
  name, the request object and the context it was handed, the error it passed on, and
  the context and the request (topic and payload) as they stand when it has returned.
  \<open>hook_trace\<close> is the trace of hooks run one after the other, each returning before
  the next is called.
\<close>

record hook_run =
  run_name :: jsval
  run_fn :: jsval
  run_request :: request
  run_context :: vu_context
  run_error :: jsval
  run_context_after :: vu_context
  run_request_after :: request

definition hook_trace :: "hook_run list \<Rightarrow> effect list" where
  "hook_trace runs =
     concat (map (\<lambda>r. [HookCall (run_name r) (run_fn r) (run_request r) (run_context r),
                        HookReturn (run_error r)]) runs)"

fun is_hook :: "effect \<Rightarrow> bool" where
  "is_hook (HookCall n fn r c) = True"
| "is_hook (HookReturn e) = True"
| "is_hook e = False"


text \<open>
  A run is the run of a processor function: the name is the list element rendered
  against the context of the call, the processor module has a function under it, and
  error, context and request afterwards are what that function does with the request
  and the context of the call.
\<close>

definition hook_ran :: "env \<Rightarrow> hook_run \<Rightarrow> bool" where
  "hook_ran env r =
     (run_fn r = template env (run_name r) (run_context r)
      \<and> (case processor env of
            None \<Rightarrow> False
          | Some registry \<Rightarrow>
              (case registry (to_str (run_fn r)) of
                 None \<Rightarrow> False
               | Some processFunc \<Rightarrow>
                   (case as_hook processFunc (run_request r) (run_context r) of
                      (err, context', left) \<Rightarrow>
                        run_error r = err \<and> run_context_after r = context'
                        \<and> run_request_after r = after_hook (run_request r) left))))"

text \<open>
  Runs are chained from a request and a context when the first is called with these and
  every later one with the request and the context the run before it left.
  \<open>state_after\<close> is the request and the context after the last of them.
\<close>

fun chained :: "request \<Rightarrow> vu_context \<Rightarrow> hook_run list \<Rightarrow> bool" where
  "chained req ctx [] = True"
| "chained req ctx (r # rs) =
     (run_request r = req \<and> run_context r = ctx
      \<and> chained (run_request_after r) (run_context_after r) rs)"

fun state_after :: "request \<Rightarrow> vu_context \<Rightarrow> hook_run list \<Rightarrow> request \<times> vu_context" where
  "state_after req ctx [] = (req, ctx)"
| "state_after req ctx (r # rs) = state_after (run_request_after r) (run_context_after r) rs"

text \<open>Whether the processor module has a function under a hook name, rendered against a
  context.\<close>

definition resolves :: "env \<Rightarrow> jsval \<Rightarrow> vu_context \<Rightarrow> bool" where
  "resolves env functionName ctx =
     (case processor env of
        None \<Rightarrow> False
      | Some registry \<Rightarrow> registry (to_str (template env functionName ctx)) \<noteq> None)"

text \<open>
  Two processor functions (a hook that fails and one that does nothing), an environment
  that knows them under the names \<open>failing\<close> and \<open>ok\<close>, renders every template to
  itself, knows \<^verbatim>\<open>JSON.stringify\<close> on the sample payload and has a transport that reports
  no error; and some descriptors.
\<close>

definition sample_stringify :: "jsval \<Rightarrow> jsval" where
  \<open>sample_stringify v =
     (if v = JObj [(''message'', JStr ''hello'')] then JStr ''{"message":"hello"}''
      else JUndefined)\<close>

definition sample_hook_failing :: jsfun where
  "sample_hook_failing =
     \<lparr>as_step = (\<lambda>c. c), as_hook = (\<lambda>r c. (JStr ''hook failed'', c, r)),
      as_whileTrue = (\<lambda>c. False)\<rparr>"

definition sample_hook_ok :: jsfun where
  "sample_hook_ok =
     \<lparr>as_step = (\<lambda>c. c), as_hook = (\<lambda>r c. (JNull, c, r)), as_whileTrue = (\<lambda>c. True)\<rparr>"

definition sample_env :: env where
  "sample_env =
     \<lparr>template = (\<lambda>v c. v),
      processor = Some [''failing'' \<mapsto> sample_hook_failing, ''ok'' \<mapsto> sample_hook_ok],
      stringify = sample_stringify,
      publish_error = (\<lambda>t p opts. JNull),
      end_error = JNull\<rparr>"

definition sample_publish :: "jsval \<Rightarrow> publish_spec" where
  "sample_publish hooks =
     PublishSpec (JStr ''sensor/data'') (JObj [(''message'', JStr ''hello'')])
       (JObj [(''qos'', JNum 1)]) hooks"

definition publish_rs :: "publish_spec \<Rightarrow> request_spec" where
  "publish_rs p =
     RS None None JUndefined JUndefined JUndefined JUndefined JUndefined JUndefined (Some p)"

definition loop_rs :: "request_spec list \<Rightarrow> int option \<Rightarrow> request_spec" where
  "loop_rs inner count =
     RS (Some inner) count JUndefined JUndefined JUndefined JUndefined JUndefined JUndefined None"

definition sample_scenario :: "jsval \<Rightarrow> scenario_spec" where
  "sample_scenario hooks =
     \<lparr>beforeScenario = [], afterScenario = [], beforeRequest = [],
      flow = [publish_rs (sample_publish hooks)]\<rparr>"

text \<open>The context of a virtual user whose connect has stored the handle \<open>h\<close>.\<close>

definition connected :: "nat \<Rightarrow> vu_context" where
  "connected h = empty_context\<lparr>mqtt := Some h\<rparr>"

text \<open>
  A hook that changes what it is handed: it adds the property \<open>stamped\<close> to a payload
  that is an object (and assigns a string to the \<open>payload\<close> property of its argument
  otherwise, which the step's own variable does not see), and sets the variable
  \<open>stamped\<close> in the context. With it an environment that knows it under \<open>stamp\<close>,
  whose \<^verbatim>\<open>JSON.stringify\<close> knows the stamped sample payload too, and the context the hook
  leaves when called with \<open>connected 7\<close>.
\<close>

definition stamp :: "jsval \<Rightarrow> jsval" where
  "stamp v = (case v of JObj kvs \<Rightarrow> JObj (kvs @ [(''stamped'', JBool True)])
                      | _ \<Rightarrow> JStr ''replaced'')"

definition sample_hook_stamp :: jsfun where
  "sample_hook_stamp =
     \<lparr>as_step = (\<lambda>c. c),
      as_hook = (\<lambda>r c. (JNull, set_var ''stamped'' (JBool True) c,
                          Request (req_topic r) (stamp (req_payload r)))),
      as_whileTrue = (\<lambda>c. True)\<rparr>"

definition stamped_json :: jsval where
  \<open>stamped_json = JStr ''{"message":"hello","stamped":true}''\<close>

definition stamped_stringify :: "jsval \<Rightarrow> jsval" where
  "stamped_stringify v =
     (if v = JObj [(''message'', JStr ''hello''), (''stamped'', JBool True)]
      then stamped_json else sample_stringify v)"

definition stamping_env :: env where
  "stamping_env =
     \<lparr>template = (\<lambda>v c. v),
      processor = Some [''stamp'' \<mapsto> sample_hook_stamp, ''failing'' \<mapsto> sample_hook_failing],
      stringify = stamped_stringify,
      publish_error = (\<lambda>t p opts. JNull),
      end_error = JNull\<rparr>"

definition stamped_context :: vu_context where
  "stamped_context = set_var ''stamped'' (JBool True) (connected 7)"

section \<open>Properties of the correlation\<close>

text \<open>
  What one inbound message can do, whatever \<^verbatim>\<open>msg\<close> resolves to: nothing, a console
  error, or the marking of one pending entry followed by a console error or by the one
  call of its callback.
\<close>

lemma handleResponse_on_cases:
  assumes "handleResponse_on b P self t m = (self', effs)"
  shows "(self' = self \<and> (effs = [] \<or> (\<exists>e. effs = [ConsoleError e])))
       \<or> (\<exists>k d. responseHandlers self k = Some d
              \<and> self' = self\<lparr>responseHandlers :=
                           (responseHandlers self)(k \<mapsto> d\<lparr>executed := True\<rparr>)\<rparr>
              \<and> ((\<exists>e. effs = [ConsoleError e])
                   \<or> (\<exists>r. effs = [InvokeCallback (callback d) r])))"
  using assms
  unfolding handleResponse_on_def handleResponse_try_def
  by (auto simp: Let_def split: option.splits sum.splits if_splits)


lemma handleResponse_on_dom:
  assumes "handleResponse_on b P self t m = (self', effs)"
  shows "dom (responseHandlers self') = dom (responseHandlers self)"
  using handleResponse_on_cases [OF assms] by (auto split: if_splits)

lemma handleResponse_on_invoke:
  assumes "handleResponse_on b P self t m = (self', effs)"
    and "InvokeCallback cb r \<in> set effs"
  shows "\<exists>k d d'. responseHandlers self k = Some d \<and> callback d = cb
           \<and> responseHandlers self' k = Some d' \<and> executed d'"
  using handleResponse_on_cases [OF assms(1)] assms(2) by auto



text \<open>The sample request registers as the sample pending entry, and the handler of the
  module stops at \<^verbatim>\<open>msg\<close> on every message.\<close>

lemma sample_registered:
  "endCallback sample_engine sample_rpc ''1'' sample_request sample_context
     = (sample_pending, [SetTimeout ''1'' (JNum 10000), WsSend 0 sample_request], None)"
  by (simp add: endCallback_def isAcknowledgeRequired_def js_and_def sample_engine_def
      sample_pending_def sample_rpc_def sample_context_def)

lemma handleResponse_on_unbound:
  "handleResponse_on None P self t m = (self, [ConsoleError (ReferenceError ''msg'')])"
  by (simp add: handleResponse_on_def handleResponse_try_def)


text \<open>
  C1, where the code departs from it. The request \<open>1\<close> for \<open>getUser\<close> is registered;
  its response frame arrives first; the timer fires; the frame arrives once more. The
  handler of the module stops at \<^verbatim>\<open>msg\<close> each time: the frame that came in time settles
  nothing and leaves the entry pending, each arrival writes an error to the console,
  and the request is settled by its timer, as a timeout.
\<close>

theorem response_in_time_still_times_out:
  "endCallback sample_engine sample_rpc ''1'' sample_request sample_context
     = (sample_pending, [SetTimeout ''1'' (JNum 10000), WsSend 0 sample_request], None)
   \<and> handleResponse sample_parse sample_pending ''t'' sample_frame
     = (sample_pending, [ConsoleError (ReferenceError ''msg'')])
   \<and> (case arrivals None sample_parse sample_pending
             [Message ''t'' sample_frame, TimerFires ''1'', Message ''t'' sample_frame] of
        (self', effs, thrown) \<Rightarrow>
          effs = [ConsoleError (ReferenceError ''msg''),
                  Emit ''error'' [JStr ''response timeout for getUser''],
                  StepCallback ''1'' (new_Error ''response timeout for getUser''),
                  ConsoleError (ReferenceError ''msg'')]
          \<and> thrown = None \<and> responseHandlers self' ''1'' = None)"
  by (simp add: sample_registered handleResponse_def handleResponse_on_unbound
      timeout_handler_def sample_pending_def Let_def)

lemma show_int_1: "show_int 1 = ''1''"
  by code_simp

text \<open>
  Were \<^verbatim>\<open>msg\<close> to resolve to the message, a second frame for the same request arriving
  before the timer would call the callback a second time: the handler does not look at
  \<open>executed\<close>, and the entry stays until the timer removes it.
\<close>

lemma duplicate_frame_calls_twice:
  "(case arrivals (Some sample_frame) sample_parse sample_pending
           [Message ''t'' sample_frame, Message ''t'' sample_frame] of
      (self', effs, thrown) \<Rightarrow>
        effs = [InvokeCallback (AckCallback ''1'') (JArr [JStr ''ok'']),
                InvokeCallback (AckCallback ''1'') (JArr [JStr ''ok''])]
        \<and> map_option executed (responseHandlers self' ''1'') = Some True)"
  by (simp add: handleResponse_on_def handleResponse_try_def sample_frame_def indexOf_def
      sample_parse_def show_int_1 sample_pending_def Let_def)

text \<open>
  C3, as the code has it. Whatever \<^verbatim>\<open>msg\<close> resolves to and whatever \<^verbatim>\<open>JSON.parse\<close>
  returns, one inbound message puts nothing on the event sink, neither removes nor adds
  a pending entry, and does at most one thing: it writes an error to the console or it
  calls the callback of an entry that is pending, whose \<open>executed\<close> is true afterwards.
  The handler always returns: it has no exception to hand on.
\<close>

theorem handleResponse_contained:
  assumes "handleResponse_on b P self t m = (self', effs)"
  shows "emitted effs = []
       \<and> dom (responseHandlers self') = dom (responseHandlers self)
       \<and> length effs \<le> 1
       \<and> (\<forall>e\<in>set effs. (\<exists>x. e = ConsoleError x) \<or> (\<exists>cb r. e = InvokeCallback cb r))
       \<and> (\<forall>cb r. InvokeCallback cb r \<in> set effs
            \<longrightarrow> (\<exists>k d d'. responseHandlers self k = Some d \<and> callback d = cb
                    \<and> responseHandlers self' k = Some d' \<and> executed d'))"
proof -
  have "emitted effs = []" "length effs \<le> 1"
    "\<forall>e\<in>set effs. (\<exists>x. e = ConsoleError x) \<or> (\<exists>cb r. e = InvokeCallback cb r)"
    using handleResponse_on_cases [OF assms] by auto
  with handleResponse_on_dom [OF assms] handleResponse_on_invoke [OF assms]
  show ?thesis by blast
qed

text \<open>
  C3 at the sample frame with \<^verbatim>\<open>msg\<close> resolving to it: the entry \<open>1\<close> stays, marked
  executed, and its callback gets the second element of \<^verbatim>\<open>p\<close>.
\<close>

theorem handleResponse_contained_witness:
  "emitted (snd (handleResponse_on (Some sample_frame) sample_parse sample_pending ''t''
                   sample_frame)) = []
   \<and> dom (responseHandlers (fst (handleResponse_on (Some sample_frame) sample_parse
                                    sample_pending ''t'' sample_frame))) = {''1''}
   \<and> snd (handleResponse_on (Some sample_frame) sample_parse sample_pending ''t''
            sample_frame) = [InvokeCallback (AckCallback ''1'') (JArr [JStr ''ok''])]
   \<and> map_option executed
        (responseHandlers (fst (handleResponse_on (Some sample_frame) sample_parse
                                  sample_pending ''t'' sample_frame)) ''1'') = Some True"
proof -
  have v: "handleResponse_on (Some sample_frame) sample_parse sample_pending ''t'' sample_frame
      = (sample_pending\<lparr>responseHandlers := (responseHandlers sample_pending)
           (''1'' \<mapsto> \<lparr>callback = AckCallback ''1'', executed = True, rpc = JStr ''getUser''\<rparr>)\<rparr>,
         [InvokeCallback (AckCallback ''1'') (JArr [JStr ''ok''])])"
    by (simp add: handleResponse_on_def handleResponse_try_def sample_frame_def indexOf_def
        sample_parse_def show_int_1 sample_pending_def Let_def)
  have d: "dom (responseHandlers sample_pending) = {''1''}"
    by (simp add: sample_pending_def)
  from handleResponse_contained [OF v] show ?thesis
    by (simp add: v d)
qed

text \<open>
  C3 as stated fails. A malformed frame is not reported to the event sink: the handler
  of the module writes to the console and emits nothing, and it does the same with the
  well-formed frame of the pending request \<open>1\<close>, whose entry it leaves as it was. With
  \<^verbatim>\<open>msg\<close> resolving to the message the sink stays empty all the same: the parse error
  goes to the console, and a frame of another responder is dropped without a word.
\<close>

theorem malformed_frame_not_reported:
  "emitted (snd (handleResponse sample_parse sample_pending ''t'' ''41|{'')) = []
   \<and> handleResponse sample_parse sample_pending ''t'' ''41|{''
       = (sample_pending, [ConsoleError (ReferenceError ''msg'')])
   \<and> handleResponse sample_parse sample_pending ''t'' sample_frame
       = (sample_pending, [ConsoleError (ReferenceError ''msg'')])
   \<and> handleResponse_on (Some ''41|{'') sample_parse sample_pending ''t'' ''41|{''
       = (sample_pending, [ConsoleError (SyntaxError ''{'')])
   \<and> handleResponse_on (Some ''40|{}'') sample_parse sample_pending ''t'' ''40|{}''
       = (sample_pending, [])"
  by (simp add: handleResponse_def handleResponse_on_unbound handleResponse_on_def
      handleResponse_try_def indexOf_def sample_parse_def)

section \<open>Properties of response validation\<close>

lemma processResponse_data_supplied:
  "truthy (ack_data response)
   \<Longrightarrow> processResponse S C data response context = ([], Inl (ReferenceError ''deepEqual''))"
  by (simp add: processResponse_def processResponse_on_def)

text \<open>
  With no literal supplied, capture and match go as follows: a failed match expression
  fails the step with \<open>Failed match\<close>; when all succeed there is one match event for
  each expression, the captures and the body are stored among the variables, and the
  success counter goes up by one.
\<close>

lemma map_of_filter_key:
  "map_of (filter (\<lambda>kv. fst kv \<noteq> k) xs) k' = (if k' = k then None else map_of xs k')"
  by (induction xs) auto

lemma set_var_lookup:
  "map_of (vars (set_var k v c)) k' = (if k' = k then Some v else map_of (vars c) k')"
  by (simp add: set_var_def map_of_filter_key)

lemma set_var_other [simp]:
  "successCount (set_var k v c) = successCount c" "mqtt (set_var k v c) = mqtt c"
  by (simp_all add: set_var_def)

lemma fold_set_var_lookup:
  "map_of (vars (fold (\<lambda>kv c. set_var (fst kv) (snd kv) c) caps c)) k
     = (case map_of (rev caps) k of Some v \<Rightarrow> Some v | None \<Rightarrow> map_of (vars c) k)"
proof (induction caps arbitrary: c)
  case Nil
  show ?case by simp
next
  case (Cons kv caps)
  show ?case
    by (simp add: Cons.IH set_var_lookup map_add_def split: option.splits)
qed

lemma fold_set_var_successCount:
  "successCount (fold (\<lambda>kv c. set_var (fst kv) (snd kv) c) caps c) = successCount c"
  by (induction caps arbitrary: c) simp_all

lemma emitted_map_match:
  "emitted (map (\<lambda>kv. Emit n (f kv)) xs) = map (\<lambda>kv. (n, f kv)) xs"
  by (induction xs) simp_all

lemma capture_and_match:
  assumes "\<not> truthy (ack_data response)"
    and "truthy (ack_capture response) \<or> truthy (ack_match response)"
    and "C response (S data) ctx = (err, result)" and "\<not> truthy err"
  shows "(\<exists>kv\<in>set (matches result). \<not> success (snd kv)) \<Longrightarrow>
           processResponse S C data response ctx
             = ([Emit ''error'' [JStr ''Failed match'']], Inr (new_Error ''Failed match'', ctx))"
    and "(\<forall>kv\<in>set (matches result). success (snd kv)) \<Longrightarrow>
           \<exists>effs ctx'. processResponse S C data response ctx = (effs, Inr (JNull, ctx'))
             \<and> map fst (emitted effs) = replicate (length (matches result)) ''match''
             \<and> successCount ctx' = successCount ctx + 1
             \<and> map_of (vars ctx') ''$'' = Some (S data)
             \<and> (\<forall>k. k \<noteq> ''$'' \<longrightarrow> map_of (vars ctx') k
                   = (case map_of (rev (captures result)) k of
                        Some v \<Rightarrow> Some v | None \<Rightarrow> map_of (vars ctx) k))"
proof -
  assume "\<exists>kv\<in>set (matches result). \<not> success (snd kv)"
  then have "filter (\<lambda>kv. \<not> success (snd kv)) (matches result) \<noteq> []"
    by (auto simp: filter_empty_conv)
  with assms show "processResponse S C data response ctx
             = ([Emit ''error'' [JStr ''Failed match'']], Inr (new_Error ''Failed match'', ctx))"
    by (auto simp: processResponse_def processResponse_on_def processResponse_capture_def Let_def)
next
  assume all: "\<forall>kv\<in>set (matches result). success (snd kv)"
  then have f: "filter (\<lambda>kv. \<not> success (snd kv)) (matches result) = []"
    by (auto simp: filter_empty_conv)
  let ?ctx' = "(set_var ''$'' (S data)
                  (fold (\<lambda>kv c. set_var (fst kv) (snd kv) c) (captures result) ctx))
                 \<lparr>successCount := successCount ctx + 1\<rparr>"
  let ?effs = "map (\<lambda>kv. Emit ''match''
                         [JBool (success (snd kv)),
                          JObj [(''expected'', expected (snd kv)), (''got'', got (snd kv)),
                                (''expression'', expression (snd kv))]])
                    (matches result)"
  from assms f have "processResponse S C data response ctx = (?effs, Inr (JNull, ?ctx'))"
    by (auto simp: processResponse_def processResponse_on_def processResponse_capture_def Let_def)
  moreover have "map fst (emitted ?effs) = replicate (length (matches result)) ''match''"
    by (simp add: emitted_map_match comp_def map_replicate_const)
  moreover have "successCount ?ctx' = successCount ctx + 1" by simp
  moreover have "map_of (vars ?ctx') ''$'' = Some (S data)" by (simp add: set_var_lookup)
  moreover have "\<forall>k. k \<noteq> ''$'' \<longrightarrow> map_of (vars ?ctx') k
                   = (case map_of (rev (captures result)) k of
                        Some v \<Rightarrow> Some v | None \<Rightarrow> map_of (vars ctx) k)"
    by (simp add: set_var_lookup fold_set_var_lookup)
  ultimately show "\<exists>effs ctx'. processResponse S C data response ctx = (effs, Inr (JNull, ctx'))
             \<and> map fst (emitted effs) = replicate (length (matches result)) ''match''
             \<and> successCount ctx' = successCount ctx + 1
             \<and> map_of (vars ctx') ''$'' = Some (S data)
             \<and> (\<forall>k. k \<noteq> ''$'' \<longrightarrow> map_of (vars ctx') k
                   = (case map_of (rev (captures result)) k of
                        Some v \<Rightarrow> Some v | None \<Rightarrow> map_of (vars ctx) k))"
    by blast
qed

text \<open>
  C7, where the code departs from it. The acknowledge spec supplies the literal \<open>ok\<close>
  and the response holds \<open>bad\<close>: reading \<^verbatim>\<open>deepEqual\<close>, which nothing declares, throws,
  so no error event is emitted and the callback is not called; \<^verbatim>\<open>ackCallback\<close> hands
  the exception on and the step's continuation is never invoked.
\<close>

theorem literal_check_throws:
  "processResponse (\<lambda>v. JStr (to_str v)) (\<lambda>r b c. (JNull, \<lparr>captures = [], matches = []\<rparr>))
     (JObj [(''0'', JArr [JStr ''bad''])])
     \<lparr>ack_data = JStr ''ok'', ack_capture = JUndefined, ack_match = JUndefined\<rparr> sample_context
   = ([], Inl (ReferenceError ''deepEqual''))
   \<and> ackCallback (\<lambda>v. JStr (to_str v)) (\<lambda>r b c. (JNull, \<lparr>captures = [], matches = []\<rparr>)) ''1''
       \<lparr>ack_data = JStr ''ok'', ack_capture = JUndefined, ack_match = JUndefined\<rparr> sample_context
       (JArr [JStr ''bad''])
     = ([], Some (ReferenceError ''deepEqual''))"
  by (simp add: ackCallback_def processResponse_data_supplied)

section \<open>Properties of the MQTT engine\<close>

lemma sample_env_simps [simp]:
  "processor sample_env = Some [''failing'' \<mapsto> sample_hook_failing, ''ok'' \<mapsto> sample_hook_ok]"
  "template sample_env = (\<lambda>v c. v)" "stringify sample_env = sample_stringify"
  "publish_error sample_env = (\<lambda>t p opts. JNull)" "end_error sample_env = JNull"
  by (simp_all add: sample_env_def)

lemma sample_hooks [simp]:
  "as_hook sample_hook_failing = (\<lambda>r c. (JStr ''hook failed'', c, r))"
  "as_hook sample_hook_ok = (\<lambda>r c. (JNull, c, r))"
  by (simp_all add: sample_hook_failing_def sample_hook_ok_def)

lemma waterfall_done_error:
  "truthy error \<Longrightarrow> waterfall_done env error context = [FinalCallback error context]"
  by (simp add: waterfall_done_def)

lemma waterfall_done_closes:
  "\<not> truthy error \<Longrightarrow> mqtt c = Some h \<Longrightarrow>
     \<exists>counter. waterfall_done env error (Some c)
       = [MqttEnd h, Emit ''counter'' counter, FinalCallback (end_error env) (Some c)]"
  by (simp add: waterfall_done_def)

text \<open>
  C2, where the code departs from it. The connect stores the handle \<open>7\<close> in the context;
  the first step, a publish, fails in its beforeRequest hook. \<^verbatim>\<open>done\<close> gets the error
  and the context that holds the handle, and delivers the result without closing it:
  the run has no \<open>MqttEnd\<close>. With no error the same \<^verbatim>\<open>done\<close> closes the handle first,
  and \<^verbatim>\<open>scenarioWaterfallCb\<close> of the RPC engine closes its client on an error too.
\<close>

theorem failed_step_leaves_handle_open:
  "createScenario 0 sample_env (JStr ''vu1'') (sample_scenario (JArr [JStr ''failing'']))
     (Connect 7) empty_context
   = [Emit ''started'' [],
      Emit ''counter'' [JStr ''mqtt.connect'', JNum 1],
      VuInitCallback JNull (Some (connected 7)),
      HookCall (JStr ''failing'') (JStr ''failing'')
        (Request (JStr ''sensor/data'') (JObj [(''message'', JStr ''hello'')])) (connected 7),
      HookReturn (JStr ''hook failed''),
      FinalCallback (JStr ''hook failed'') (Some (connected 7))]
   \<and> mqtt (connected 7) = Some 7
   \<and> waterfall_done sample_env (JStr ''hook failed'') (Some (connected 7))
       = [FinalCallback (JStr ''hook failed'') (Some (connected 7))]
   \<and> waterfall_done sample_env JNull (Some (connected 7))
       = [MqttEnd 7, Emit ''counter'' [JStr ''mqtt.close'', JNum 1],
          FinalCallback JNull (Some (connected 7))]
   \<and> scenarioWaterfallCb (JStr ''hook failed'') (Some (empty_context\<lparr>client := Some 7\<rparr>))
       = [ClientEnd 7,
          FinalCallback (JStr ''hook failed'') (Some (empty_context\<lparr>client := Some 7\<rparr>))]"
  by (simp add: createScenario_def tasks_of_def sample_scenario_def publish_rs_def
      sample_publish_def run_tasks_def publish_step_def concat_arg_def
      sample_hook_failing_def waterfall_done_def connected_def empty_context_def
      scenarioWaterfallCb_def Let_def)

text \<open>
  A reconnect only counts, and so does an error once the \<^verbatim>\<open>once("error")\<close> listener is
  gone; a later connect does nothing.
\<close>

lemma later_events_only_emit:
  "vuInit_event cid c ls Reconnect
     = (ls, c, [Emit ''counter'' [JStr (''mqtt.reconnect.'' @ to_str cid), JNum 1]], None)"
  "\<not> error_once ls \<Longrightarrow> message_or_code e = Inr m \<Longrightarrow>
     vuInit_event cid c ls (TransportError e) = (ls, c, [Emit ''error'' [m]], None)"
  "\<not> connect_once ls \<Longrightarrow> vuInit_event cid c ls (Connect h) = (ls, c, [], None)"
  by simp_all

text \<open>
  C9, where the code departs from it. The connect completes, the client reconnects,
  then reports its first error: the listener registered with \<^verbatim>\<open>once("error")\<close> is
  still there and calls the continuation of \<^verbatim>\<open>vuInit\<close> a second time, with the error.
  The RPC engine does the same with its \<^verbatim>\<open>once('error')\<close>, and its \<^verbatim>\<open>on('connect')\<close>
  calls the continuation again at every later connect.
\<close>

theorem error_after_connect_calls_back_again:
  "vuInit_events (JStr ''vu1'') empty_context \<lparr>connect_once = True, error_once = True\<rparr>
     [Connect 7, Reconnect, TransportError (new_Error ''ECONNRESET'')]
   = (\<lparr>connect_once = False, error_once = False\<rparr>, connected 7,
      [Emit ''counter'' [JStr ''mqtt.connect'', JNum 1],
       VuInitCallback JNull (Some (connected 7)),
       Emit ''counter'' [JStr ''mqtt.reconnect.vu1'', JNum 1],
       VuInitCallback (new_Error ''ECONNRESET'') None,
       Emit ''error'' [JStr ''ECONNRESET'']],
      None)
   \<and> createMqttClient_event (empty_context\<lparr>client := Some 7\<rparr>) True (Connect 7)
     = (True, empty_context\<lparr>client := Some 7\<rparr>,
        [ZeroCallback JNull (Some (empty_context\<lparr>client := Some 7\<rparr>))], None)
   \<and> createMqttClient_event (empty_context\<lparr>client := Some 7\<rparr>) True
        (TransportError (new_Error ''ECONNRESET''))
     = (False, empty_context\<lparr>client := Some 7\<rparr>,
        [Emit ''error'' [JStr ''ECONNRESET''],
         ZeroCallback (new_Error ''ECONNRESET'') (Some empty_context)], None)"
  by (simp add: connected_def empty_context_def message_or_code_def new_Error_def)

lemma sample_function_step:
  "step fuel sample_env ob (function_rs (JStr ''ok'')) c = ([FuncCall (JStr ''ok'') c], Success c)"
  by (simp add: function_rs_def function_step_def sample_hook_ok_def)

lemma sample_loop_indefinitely:
  "loop_indefinitely fuel [step fuel' sample_env ob (function_rs (JStr ''ok''))] None c
     = (replicate fuel (FuncCall (JStr ''ok'') c), OutOfFuel)"
  by (induction fuel) (simp_all add: sample_function_step goes_on_def)

lemma step_loop:
  "step fuel env ob (RS (Some inner) count lv over wt log think func pub)
     = createLoopWithCount fuel (count_or_minus_one count) (map (step fuel env ob) inner)
         \<lparr>loopValue = js_or lv (JStr ''$loopCount''), overValues = over,
          whileTrue = (case processor env of
                         None \<Rightarrow> None
                       | Some registry \<Rightarrow> registry (to_str wt))\<rparr>"
  by simp

text \<open>
  A positive count does what the claim says: the inner steps run that many times, with
  the loop variable at 0, 1, and so on.
\<close>

lemma set_var_twice: "set_var k v (set_var k w c) = set_var k v c"
  by (simp add: set_var_def)

lemma loop_times_runs:
  assumes "\<And>c. waterfall steps c = (tr c, Success c)"
  shows "loop_times steps name n i c
     = (concat (map (\<lambda>j. tr (set_var name (JNum (int j)) c)) [i..<i + n]),
        Success (if n = 0 then c else set_var name (JNum (int (i + n - 1))) c))"
proof (induction n arbitrary: i c)
  case 0
  show ?case by simp
next
  case (Suc n)
  have up: "[i..<i + Suc n] = i # [Suc i..<Suc i + n]"
    by (simp add: upt_conv_Cons)
  show ?case
    by (simp only: loop_times.simps assms Suc.IH up)
       (simp add: set_var_twice)
qed

lemma count_positive_runs:
  assumes "0 < n"
  shows "step fuel sample_env (JArr []) (loop_rs [function_rs (JStr ''ok'')] (Some (int n)))
           empty_context
     = (map (\<lambda>j. FuncCall (JStr ''ok'') (set_var ''$loopCount'' (JNum (int j)) empty_context))
          [0..<n],
        Success (set_var ''$loopCount'' (JNum (int (n - 1))) empty_context))"
proof -
  have w: "waterfall [step fuel sample_env (JArr []) (function_rs (JStr ''ok''))] c
      = ([FuncCall (JStr ''ok'') c], Success c)" for c
    by (simp add: sample_function_step del: step.simps)
  have c: "count_or_minus_one (Some (int n)) = int n"
    using assms by (simp add: count_or_minus_one_def)
  show ?thesis
    using assms
    by (simp add: loop_rs_def step_loop c createLoopWithCount_def js_or_def
        loop_times_runs [of _ "\<lambda>c. [FuncCall (JStr ''ok'') c]", OF w] concat_map_singleton
        del: step.simps)
qed

text \<open>
  C6, where the code departs from it. A loop with \<open>count: 0\<close>, no \<open>over\<close> and no
  \<open>whileTrue\<close>: \<^verbatim>\<open>rs.count || -1\<close> hands the helper \<open>-1\<close>, the count of a loop without
  end. Its inner step does not run zero times: it runs as often as there is fuel, and
  the loop never calls back.
\<close>

theorem count_zero_never_ends:
  "count_or_minus_one (Some 0) = - 1
   \<and> step fuel sample_env (JArr []) (loop_rs [function_rs (JStr ''ok'')] (Some 0)) empty_context
     = (replicate fuel (FuncCall (JStr ''ok'') empty_context), OutOfFuel)"
  by (simp add: count_or_minus_one_def loop_rs_def step_loop createLoopWithCount_def
      sample_loop_indefinitely fun_eq_iff del: step.simps)

lemma hook_trace_Nil [simp]: "hook_trace [] = []"
  by (simp add: hook_trace_def)

lemma hook_trace_Cons [simp]:
  "hook_trace (r # rs) =
     HookCall (run_name r) (run_fn r) (run_request r) (run_context r)
       # HookReturn (run_error r) # hook_trace rs"
  by (simp add: hook_trace_def)

lemma eachSeries_runs:
  assumes "eachSeries env names req ctx = (effs, out, req')"
  shows "\<exists>runs. effs = hook_trace runs
           \<and> prefix (map run_name runs) names
           \<and> (\<forall>r\<in>set runs. hook_ran env r)
           \<and> chained req ctx runs
           \<and> (\<forall>r\<in>set (butlast runs). \<not> truthy (run_error r))
           \<and> (case out of
                 Success c \<Rightarrow> map run_name runs = names
                   \<and> (\<forall>r\<in>set runs. \<not> truthy (run_error r))
                   \<and> (req', c) = state_after req ctx runs
               | Failure e c \<Rightarrow> runs \<noteq> [] \<and> run_error (last runs) = e \<and> truthy e
                   \<and> c = Some (run_context_after (last runs))
               | Thrown x \<Rightarrow> (\<forall>r\<in>set runs. \<not> truthy (run_error r))
                   \<and> length runs < length names
                   \<and> \<not> resolves env (names ! length runs) (snd (state_after req ctx runs))
               | OutOfFuel \<Rightarrow> False)"
  using assms
proof (induction names arbitrary: req ctx effs out req')
  case Nil
  then show ?case by (intro exI [of _ "[]"]) auto
next
  case (Cons n names)
  let ?fn = "template env n ctx"
  show ?case
  proof (cases "processor env")
    case None
    with Cons.prems show ?thesis
      by (intro exI [of _ "[]"]) (auto simp: Let_def resolves_def)
  next
    case (Some registry)
    show ?thesis
    proof (cases "registry (to_str ?fn)")
      case None
      with Some Cons.prems show ?thesis
        by (intro exI [of _ "[]"]) (auto simp: Let_def resolves_def)
    next
      case pf: (Some processFunc)
      obtain err ctx' left where h: "as_hook processFunc req ctx = (err, ctx', left)"
        by (cases "as_hook processFunc req ctx")
      let ?r = "\<lparr>run_name = n, run_fn = ?fn, run_request = req, run_context = ctx,
                  run_error = err, run_context_after = ctx',
                  run_request_after = after_hook req left\<rparr>"
      have ran: "hook_ran env ?r"
        by (simp add: hook_ran_def Some pf h)
      show ?thesis
      proof (cases "truthy err")
        case True
        with Some pf h Cons.prems
        have "effs = hook_trace [?r]" "out = Failure err (Some ctx')"
          by (auto simp: Let_def)
        with True ran show ?thesis by (intro exI [of _ "[?r]"]) auto
      next
        case False
        obtain effs' out' req'' where
          rest: "eachSeries env names (after_hook req left) ctx' = (effs', out', req'')"
          by (cases "eachSeries env names (after_hook req left) ctx'")
        from Cons.IH [OF rest] obtain runs where
          runs: "effs' = hook_trace runs" "prefix (map run_name runs) names"
            "\<forall>r\<in>set runs. hook_ran env r"
            "chained (after_hook req left) ctx' runs"
            "\<forall>r\<in>set (butlast runs). \<not> truthy (run_error r)"
            and oc: "case out' of
                 Success c \<Rightarrow> map run_name runs = names
                   \<and> (\<forall>r\<in>set runs. \<not> truthy (run_error r))
                   \<and> (req'', c) = state_after (after_hook req left) ctx' runs
               | Failure e c \<Rightarrow> runs \<noteq> [] \<and> run_error (last runs) = e \<and> truthy e
                   \<and> c = Some (run_context_after (last runs))
               | Thrown x \<Rightarrow> (\<forall>r\<in>set runs. \<not> truthy (run_error r))
                   \<and> length runs < length names
                   \<and> \<not> resolves env (names ! length runs)
                         (snd (state_after (after_hook req left) ctx' runs))
               | OutOfFuel \<Rightarrow> False"
          by blast
        from False Some pf h rest Cons.prems
        have eq: "effs = hook_trace (?r # runs)" "out = out'" "req' = req''"
          by (auto simp: Let_def runs(1))
        show ?thesis
        proof (intro exI [of _ "?r # runs"] conjI)
          show "effs = hook_trace (?r # runs)" by (rule eq(1))
          show "prefix (map run_name (?r # runs)) (n # names)" using runs(2) by simp
          show "\<forall>r\<in>set (?r # runs). hook_ran env r" using ran runs(3) by simp
          show "chained req ctx (?r # runs)" using runs(4) by simp
          show "\<forall>r\<in>set (butlast (?r # runs)). \<not> truthy (run_error r)"
            using runs(5) False by (cases runs) auto
          show "case out of
                 Success c \<Rightarrow> map run_name (?r # runs) = n # names
                   \<and> (\<forall>r\<in>set (?r # runs). \<not> truthy (run_error r))
                   \<and> (req', c) = state_after req ctx (?r # runs)
               | Failure e c \<Rightarrow> ?r # runs \<noteq> [] \<and> run_error (last (?r # runs)) = e \<and> truthy e
                   \<and> c = Some (run_context_after (last (?r # runs)))
               | Thrown x \<Rightarrow> (\<forall>r\<in>set (?r # runs). \<not> truthy (run_error r))
                   \<and> length (?r # runs) < length (n # names)
                   \<and> \<not> resolves env ((n # names) ! length (?r # runs))
                         (snd (state_after req ctx (?r # runs)))
               | OutOfFuel \<Rightarrow> False"
            using oc False unfolding eq by (cases out') auto
        qed
      qed
    qed
  qed
qed

lemma hook_trace_is_hook: "e \<in> set (hook_trace runs) \<Longrightarrow> is_hook e"
  by (induction runs) auto


lemma publish_no_hook:
  "publish env p t pl c = (effs, out) \<Longrightarrow> e \<in> set effs \<Longrightarrow> \<not> is_hook e"
  by (auto simp: publish_def Let_def split: option.splits if_splits sum.splits)

lemma publish_step_split:
  assumes "publish_step env ob p ctx = (effs, out)"
  obtains hs out' req' where
    "eachSeries env (concat_arg ob @ concat_arg (pub_beforeRequest p))
       (Request (template env (pub_topic p) ctx) (template env (pub_payload p) ctx)) ctx
     = (hs, out', req')"
    and "(\<exists>ctx' rest. out' = Success ctx'
            \<and> publish env p (req_topic req') (req_payload req') ctx' = (rest, out)
            \<and> effs = hs @ rest)
         \<or> ((\<forall>c. out' \<noteq> Success c) \<and> effs = hs \<and> out = out')"
proof -
  obtain hs out' req' where
    e: "eachSeries env (concat_arg ob @ concat_arg (pub_beforeRequest p))
       (Request (template env (pub_topic p) ctx) (template env (pub_payload p) ctx)) ctx
     = (hs, out', req')"
    by (cases "eachSeries env (concat_arg ob @ concat_arg (pub_beforeRequest p))
       (Request (template env (pub_topic p) ctx) (template env (pub_payload p) ctx)) ctx")
  with assms have "(\<exists>ctx' rest. out' = Success ctx'
            \<and> publish env p (req_topic req') (req_payload req') ctx' = (rest, out)
            \<and> effs = hs @ rest)
         \<or> ((\<forall>c. out' \<noteq> Success c) \<and> effs = hs \<and> out = out')"
    by (cases out') (auto simp: publish_step_def Let_def split: prod.splits)
  with e that show ?thesis by blast
qed

lemma last_only:
  assumes "\<forall>r\<in>set (butlast runs). \<not> P r" and "r \<in> set runs" and "P r"
  shows "r = last runs"
proof -
  from assms(2) have "runs \<noteq> []" by auto
  then have "set runs = set (butlast runs @ [last runs])" by simp
  then have "set runs = set (butlast runs) \<union> {last runs}" by (simp only: set_append) simp
  with assms show ?thesis by blast
qed

text \<open>
  C5. The trace of a publish step is the trace of hooks run strictly one after the
  other, followed by what the publish itself does. The hooks called are a prefix of the
  scenario's hook names followed by the step's, in that order. Every run is the run of
  the processor function under the rendered name; the first is handed the rendered
  \<open>{topic, payload}\<close> and the step's context, every later one topic, payload and
  context as the run before it left them. A hook is only called when all before it
  passed no error; nothing of a hook comes after the publish has begun, and the publish
  only begins when every hook has run and passed no error. A hook that passes an error
  is the last thing the step does: no further hook, no publish, and the step fails with
  that error and the context as that hook left it. The hooks stop short without an error
  only where the next name has no function, and then the step throws.
\<close>

theorem hooks_run_in_series:
  assumes "publish_step env opts_beforeRequest p ctx = (effs, out)"
  shows "\<exists>runs rest. effs = hook_trace runs @ rest
       \<and> prefix (map run_name runs)
            (concat_arg opts_beforeRequest @ concat_arg (pub_beforeRequest p))
       \<and> (\<forall>r\<in>set runs. hook_ran env r)
       \<and> chained (Request (template env (pub_topic p) ctx) (template env (pub_payload p) ctx))
            ctx runs
       \<and> (\<forall>r\<in>set (butlast runs). \<not> truthy (run_error r))
       \<and> (\<forall>e\<in>set rest. \<not> is_hook e)
       \<and> (rest \<noteq> [] \<longrightarrow>
             map run_name runs = concat_arg opts_beforeRequest @ concat_arg (pub_beforeRequest p)
             \<and> (\<forall>r\<in>set runs. \<not> truthy (run_error r)))
       \<and> (\<forall>r\<in>set runs. truthy (run_error r) \<longrightarrow>
             r = last runs \<and> rest = []
             \<and> out = Failure (run_error r) (Some (run_context_after r)))
       \<and> ((\<forall>r\<in>set runs. \<not> truthy (run_error r))
            \<and> map run_name runs
                 \<noteq> concat_arg opts_beforeRequest @ concat_arg (pub_beforeRequest p) \<longrightarrow>
             rest = [] \<and> (\<exists>e. out = Thrown e)
             \<and> length runs
                 < length (concat_arg opts_beforeRequest @ concat_arg (pub_beforeRequest p))
             \<and> \<not> resolves env
                   ((concat_arg opts_beforeRequest @ concat_arg (pub_beforeRequest p))
                      ! length runs)
                   (snd (state_after
                           (Request (template env (pub_topic p) ctx)
                              (template env (pub_payload p) ctx)) ctx runs)))"
proof -
  let ?names = "concat_arg opts_beforeRequest @ concat_arg (pub_beforeRequest p)"
  let ?req = "Request (template env (pub_topic p) ctx) (template env (pub_payload p) ctx)"
  from assms obtain hs out' req' where
    e: "eachSeries env ?names ?req ctx = (hs, out', req')"
    and d: "(\<exists>ctx' rest. out' = Success ctx'
            \<and> publish env p (req_topic req') (req_payload req') ctx' = (rest, out)
            \<and> effs = hs @ rest)
         \<or> ((\<forall>c. out' \<noteq> Success c) \<and> effs = hs \<and> out = out')"
    by (rule publish_step_split)
  from eachSeries_runs [OF e] obtain runs where
    runs: "hs = hook_trace runs" "prefix (map run_name runs) ?names"
      "\<forall>r\<in>set runs. hook_ran env r" "chained ?req ctx runs"
      "\<forall>r\<in>set (butlast runs). \<not> truthy (run_error r)"
    and oc: "case out' of
                 Success c \<Rightarrow> map run_name runs = ?names
                   \<and> (\<forall>r\<in>set runs. \<not> truthy (run_error r))
                   \<and> (req', c) = state_after ?req ctx runs
               | Failure e c \<Rightarrow> runs \<noteq> [] \<and> run_error (last runs) = e \<and> truthy e
                   \<and> c = Some (run_context_after (last runs))
               | Thrown x \<Rightarrow> (\<forall>r\<in>set runs. \<not> truthy (run_error r))
                   \<and> length runs < length ?names
                   \<and> \<not> resolves env (?names ! length runs) (snd (state_after ?req ctx runs))
               | OutOfFuel \<Rightarrow> False"
    by blast
  from d show ?thesis
  proof
    assume "\<exists>ctx' rest. out' = Success ctx'
            \<and> publish env p (req_topic req') (req_payload req') ctx' = (rest, out)
            \<and> effs = hs @ rest"
    then obtain ctx' rest where s: "out' = Success ctx'"
      and pb: "publish env p (req_topic req') (req_payload req') ctx' = (rest, out)"
      and ef: "effs = hs @ rest" by blast
    from oc s have all: "map run_name runs = ?names" "\<forall>r\<in>set runs. \<not> truthy (run_error r)"
      by auto
    from pb have nh: "\<forall>e\<in>set rest. \<not> is_hook e" by (auto dest: publish_no_hook)
    show ?thesis
    proof (intro exI [of _ runs] exI [of _ rest] conjI)
      show "effs = hook_trace runs @ rest" using ef runs(1) by simp
      show "prefix (map run_name runs) ?names" by (rule runs(2))
      show "\<forall>r\<in>set runs. hook_ran env r" by (rule runs(3))
      show "chained ?req ctx runs" by (rule runs(4))
      show "\<forall>r\<in>set (butlast runs). \<not> truthy (run_error r)" by (rule runs(5))
      show "\<forall>e\<in>set rest. \<not> is_hook e" by (rule nh)
      show "rest \<noteq> [] \<longrightarrow> map run_name runs = ?names
              \<and> (\<forall>r\<in>set runs. \<not> truthy (run_error r))"
        using all by blast
      show "\<forall>r\<in>set runs. truthy (run_error r) \<longrightarrow>
              r = last runs \<and> rest = []
              \<and> out = Failure (run_error r) (Some (run_context_after r))"
        using all(2) by blast
      show "(\<forall>r\<in>set runs. \<not> truthy (run_error r)) \<and> map run_name runs \<noteq> ?names \<longrightarrow>
             rest = [] \<and> (\<exists>e. out = Thrown e) \<and> length runs < length ?names
             \<and> \<not> resolves env (?names ! length runs) (snd (state_after ?req ctx runs))"
        using all(1) by blast
    qed
  next
    assume f: "(\<forall>c. out' \<noteq> Success c) \<and> effs = hs \<and> out = out'"
    have fail: "r = last runs \<and> out = Failure (run_error r) (Some (run_context_after r))"
      if "r \<in> set runs" "truthy (run_error r)" for r
    proof -
      from last_only [of runs "\<lambda>r. truthy (run_error r)", OF runs(5) that]
      have l: "r = last runs" .
      with that oc f show ?thesis by (cases out') auto
    qed
    have thrown: "(\<exists>e. out = Thrown e) \<and> length runs < length ?names
             \<and> \<not> resolves env (?names ! length runs) (snd (state_after ?req ctx runs))"
      if "\<forall>r\<in>set runs. \<not> truthy (run_error r)"
    proof -
      from that oc f show ?thesis by (cases out') auto
    qed
    show ?thesis
    proof (intro exI [of _ runs] exI [of _ "[]"] conjI)
      show "effs = hook_trace runs @ []" using f runs(1) by simp
      show "prefix (map run_name runs) ?names" by (rule runs(2))
      show "\<forall>r\<in>set runs. hook_ran env r" by (rule runs(3))
      show "chained ?req ctx runs" by (rule runs(4))
      show "\<forall>r\<in>set (butlast runs). \<not> truthy (run_error r)" by (rule runs(5))
      show "\<forall>e\<in>set []. \<not> is_hook e" by simp
      show "[] \<noteq> [] \<longrightarrow> map run_name runs = ?names
              \<and> (\<forall>r\<in>set runs. \<not> truthy (run_error r))"
        by simp
      show "\<forall>r\<in>set runs. truthy (run_error r) \<longrightarrow>
              r = last runs \<and> [] = []
              \<and> out = Failure (run_error r) (Some (run_context_after r))"
        using fail by blast
      show "(\<forall>r\<in>set runs. \<not> truthy (run_error r)) \<and> map run_name runs \<noteq> ?names \<longrightarrow>
             [] = [] \<and> (\<exists>e. out = Thrown e) \<and> length runs < length ?names
             \<and> \<not> resolves env (?names ! length runs) (snd (state_after ?req ctx runs))"
        using thrown by blast
    qed
  qed
qed

lemma stamping_env_simps [simp]:
  "processor stamping_env
     = Some [''stamp'' \<mapsto> sample_hook_stamp, ''failing'' \<mapsto> sample_hook_failing]"
  "template stamping_env = (\<lambda>v c. v)" "stringify stamping_env = stamped_stringify"
  "publish_error stamping_env = (\<lambda>t p opts. JNull)"
  by (simp_all add: stamping_env_def)

lemma sample_hook_stamp_simp [simp]:
  "as_hook sample_hook_stamp
     = (\<lambda>r c. (JNull, set_var ''stamped'' (JBool True) c,
                Request (req_topic r) (stamp (req_payload r))))"
  by (simp add: sample_hook_stamp_def)

lemma stamped_mqtt [simp]: "mqtt stamped_context = Some 7"
  by (simp add: stamped_context_def set_var_def connected_def)

lemma stamp_series:
  "publish_step stamping_env (JArr [JStr ''stamp''])
     (sample_publish (JArr [JStr ''failing'', JStr ''stamp''])) (connected 7)
   = ([HookCall (JStr ''stamp'') (JStr ''stamp'')
         (Request (JStr ''sensor/data'') (JObj [(''message'', JStr ''hello'')])) (connected 7),
       HookReturn JNull,
       HookCall (JStr ''failing'') (JStr ''failing'')
         (Request (JStr ''sensor/data'')
            (JObj [(''message'', JStr ''hello''), (''stamped'', JBool True)]))
         stamped_context,
       HookReturn (JStr ''hook failed'')],
      Failure (JStr ''hook failed'') (Some stamped_context))"
  by (simp add: publish_step_def sample_publish_def concat_arg_def Let_def after_hook_def
      changed_in_place_def stamp_def stamped_context_def)

text \<open>
  C5 at a publish step with the scenario hook \<open>stamp\<close> and the step's hooks
  \<open>failing\<close> and \<open>stamp\<close>: \<open>stamp\<close> runs and returns, \<open>failing\<close> is handed the
  stamped payload and the stamped context and returns its error, and that is all.
\<close>

theorem hooks_run_in_series_witness:
  "publish_step stamping_env (JArr [JStr ''stamp''])
     (sample_publish (JArr [JStr ''failing'', JStr ''stamp''])) (connected 7)
   = ([HookCall (JStr ''stamp'') (JStr ''stamp'')
         (Request (JStr ''sensor/data'') (JObj [(''message'', JStr ''hello'')])) (connected 7),
       HookReturn JNull,
       HookCall (JStr ''failing'') (JStr ''failing'')
         (Request (JStr ''sensor/data'')
            (JObj [(''message'', JStr ''hello''), (''stamped'', JBool True)]))
         stamped_context,
       HookReturn (JStr ''hook failed'')],
      Failure (JStr ''hook failed'') (Some stamped_context))
   \<and> (\<exists>runs rest.
         [HookCall (JStr ''stamp'') (JStr ''stamp'')
            (Request (JStr ''sensor/data'') (JObj [(''message'', JStr ''hello'')])) (connected 7),
          HookReturn JNull,
          HookCall (JStr ''failing'') (JStr ''failing'')
            (Request (JStr ''sensor/data'')
               (JObj [(''message'', JStr ''hello''), (''stamped'', JBool True)]))
            stamped_context,
          HookReturn (JStr ''hook failed'')] = hook_trace runs @ rest
         \<and> prefix (map run_name runs) [JStr ''stamp'', JStr ''failing'', JStr ''stamp'']
         \<and> (\<forall>r\<in>set runs. hook_ran stamping_env r)
         \<and> chained (Request (JStr ''sensor/data'') (JObj [(''message'', JStr ''hello'')]))
              (connected 7) runs
         \<and> (\<forall>r\<in>set runs. truthy (run_error r) \<longrightarrow>
               r = last runs \<and> rest = []
               \<and> Failure (JStr ''hook failed'') (Some stamped_context)
                   = Failure (run_error r) (Some (run_context_after r))))"
proof -
  note v = stamp_series
  have n: "concat_arg (JArr [JStr ''stamp''])
             @ concat_arg (pub_beforeRequest (sample_publish (JArr [JStr ''failing'', JStr ''stamp''])))
           = [JStr ''stamp'', JStr ''failing'', JStr ''stamp'']"
    by (simp add: concat_arg_def sample_publish_def)
  have t: "template stamping_env (pub_topic (sample_publish (JArr [JStr ''failing'', JStr ''stamp'']))) (connected 7) = JStr ''sensor/data''"
    "template stamping_env (pub_payload (sample_publish (JArr [JStr ''failing'', JStr ''stamp'']))) (connected 7) = JObj [(''message'', JStr ''hello'')]"
    by (simp_all add: sample_publish_def)
  from hooks_run_in_series [OF v] obtain runs rest where
    "[HookCall (JStr ''stamp'') (JStr ''stamp'')
            (Request (JStr ''sensor/data'') (JObj [(''message'', JStr ''hello'')])) (connected 7),
          HookReturn JNull,
          HookCall (JStr ''failing'') (JStr ''failing'')
            (Request (JStr ''sensor/data'')
               (JObj [(''message'', JStr ''hello''), (''stamped'', JBool True)]))
            stamped_context,
          HookReturn (JStr ''hook failed'')] = hook_trace runs @ rest"
    "prefix (map run_name runs) [JStr ''stamp'', JStr ''failing'', JStr ''stamp'']"
    "\<forall>r\<in>set runs. hook_ran stamping_env r"
    "chained (Request (JStr ''sensor/data'') (JObj [(''message'', JStr ''hello'')]))
              (connected 7) runs"
    "\<forall>r\<in>set runs. truthy (run_error r) \<longrightarrow>
               r = last runs \<and> rest = []
               \<and> Failure (JStr ''hook failed'') (Some stamped_context)
                   = Failure (run_error r) (Some (run_context_after r))"
    unfolding n t by blast
  with v show ?thesis by blast
qed










lemma waterfall_skip:
  assumes "\<And>c. s c = ([], Success c)"
  shows "waterfall (xs @ s # ys) c = waterfall (xs @ ys) c"
proof (induction xs arbitrary: c)
  case Nil
  show ?case by (simp add: assms split: prod.splits)
next
  case (Cons x xs)
  show ?case by (cases "x c") (auto simp: Cons.IH split: prod.splits outcome.splits)
qed

text \<open>
  C8, as the code has it: a Function step whose name the processor module does not
  have. The step does nothing and calls its continuation with no error and the context
  it was given, so in a pipeline it is as if the step were not there; its trace is
  empty, with no warning in it.
\<close>

theorem absent_function_continues:
  assumes "processor env = Some registry" and "registry (to_str name) = None"
    and "truthy name" and "\<not> truthy log" and "\<not> truthy think"
  shows "step fuel env ob (RS None count lv over wt log think name pub) ctx = ([], Success ctx)
       \<and> waterfall (before @ step fuel env ob (RS None count lv over wt log think name pub)
                      # after) ctx
           = waterfall (before @ after) ctx"
proof -
  have noop: "step fuel env ob (RS None count lv over wt log think name pub) c = ([], Success c)"
    for c using assms by (simp add: function_step_def)
  from noop [of ctx] waterfall_skip [of _ before after ctx, OF noop] show ?thesis by simp
qed

text \<open>C8 at the name \<open>missing\<close>, between two steps that run \<open>ok\<close>.\<close>

theorem absent_function_continues_witness:
  "processor sample_env = Some [''failing'' \<mapsto> sample_hook_failing, ''ok'' \<mapsto> sample_hook_ok]
   \<and> [''failing'' \<mapsto> sample_hook_failing, ''ok'' \<mapsto> sample_hook_ok] (to_str (JStr ''missing''))
       = None
   \<and> truthy (JStr ''missing'') \<and> \<not> truthy JUndefined
   \<and> step 0 sample_env (JArr []) (function_rs (JStr ''missing'')) (connected 7)
       = ([], Success (connected 7))
   \<and> waterfall ([step 0 sample_env (JArr []) (function_rs (JStr ''ok''))]
                  @ step 0 sample_env (JArr []) (function_rs (JStr ''missing''))
                  # [step 0 sample_env (JArr []) (function_rs (JStr ''ok''))]) (connected 7)
       = waterfall ([step 0 sample_env (JArr []) (function_rs (JStr ''ok''))]
                    @ [step 0 sample_env (JArr []) (function_rs (JStr ''ok''))]) (connected 7)"
proof -
  have a: "processor sample_env
      = Some [''failing'' \<mapsto> sample_hook_failing, ''ok'' \<mapsto> sample_hook_ok]" by simp
  have b: "[''failing'' \<mapsto> sample_hook_failing, ''ok'' \<mapsto> sample_hook_ok]
      (to_str (JStr ''missing'')) = None" by simp
  have c: "truthy (JStr ''missing'')" "\<not> truthy JUndefined" by simp_all
  from absent_function_continues [OF a b c(1) c(2) c(2), of 0 "JArr []" None JUndefined
      JUndefined JUndefined None "connected 7"
      "[step 0 sample_env (JArr []) (function_rs (JStr ''ok''))]"
      "[step 0 sample_env (JArr []) (function_rs (JStr ''ok''))]"]
  show ?thesis using a b c unfolding function_rs_def by blast
qed

text \<open>
  C8 as stated fails. A Function step with the absent name \<open>missing\<close> continues, but
  its trace is empty: nothing is surfaced. A publish step with the absent hook name
  \<open>missing\<close> does not continue: the assignment to the \<^verbatim>\<open>const\<close> throws, before the
  warning is written, and nothing is published.
\<close>

theorem absent_name_no_warning_or_throw:
  "step 0 sample_env (JArr []) (function_rs (JStr ''missing'')) (connected 7)
     = ([], Success (connected 7))
   \<and> publish_step sample_env (JArr []) (sample_publish (JArr [JStr ''missing''])) (connected 7)
     = ([], Thrown (TypeError ''Assignment to constant variable.''))"
  by (simp add: function_rs_def function_step_def publish_step_def sample_publish_def
      concat_arg_def Let_def)

end
